theory Spec2Isabelle
  imports Complex_Main "HOL-Library.Word"
begin

section \<open>JavaScript values\<close>

text \<open>
  A byte of a \<^verbatim>\<open>Uint8ClampedArray\<close> is an 8-bit word. Reading a typed array past its
  end gives \<^verbatim>\<open>undefined\<close>, arithmetic on it gives \<^verbatim>\<open>NaN\<close>, and every comparison with
  \<^verbatim>\<open>NaN\<close> is false: a number read from an array is an \<open>int option\<close>, \<open>None\<close> standing
  for \<^verbatim>\<open>undefined\<close>/\<^verbatim>\<open>NaN\<close>. Writing a typed array past its end does nothing, which is
  what \<open>xs[i := v]\<close> does in HOL.
\<close>

type_synonym byte = "8 word"

definition rd :: "byte list \<Rightarrow> nat \<Rightarrow> int option" where
  "rd d i = (if i < length d then Some (uint (d ! i)) else None)"

definition abs_diff :: "int option \<Rightarrow> int option \<Rightarrow> int option" where
  "abs_diff a b = (case (a, b) of (Some u, Some v) \<Rightarrow> Some \<bar>u - v\<bar> | _ \<Rightarrow> None)"

definition plus_num :: "int option \<Rightarrow> int option \<Rightarrow> int option" where
  "plus_num a b = (case (a, b) of (Some u, Some v) \<Rightarrow> Some (u + v) | _ \<Rightarrow> None)"

definition less_num :: "int option \<Rightarrow> int \<Rightarrow> bool" where
  "less_num a t = (case a of Some u \<Rightarrow> u < t | None \<Rightarrow> False)"

definition greater_num :: "int option \<Rightarrow> int \<Rightarrow> bool" where
  "greater_num a t = (case a of Some u \<Rightarrow> t < u | None \<Rightarrow> False)"

text \<open>\<^verbatim>\<open>Math.round\<close> rounds to the nearest integer, halves upwards.\<close>

definition Math_round :: "real \<Rightarrow> int" where
  "Math_round v = \<lfloor>v + 1 / 2\<rfloor>"

text \<open>Decimal printing of an integer, as a template string interpolates it.\<close>

definition digit_char :: "nat \<Rightarrow> char" where
  "digit_char n = char_of (48 + n)"

function show_nat :: "nat \<Rightarrow> string" where
  "show_nat n = (if n < 10 then [digit_char n] else show_nat (n div 10) @ [digit_char (n mod 10)])"
  by pat_completeness auto
termination
  by (relation "measure id") auto

declare show_nat.simps [simp del]

definition show_int :: "int \<Rightarrow> string" where
  "show_int i = (if i < 0 then CHR ''-'' # show_nat (nat (- i)) else show_nat (nat i))"

text \<open>
  A string is held as the list of the bytes of its UTF-8 encoding, a \<open>char\<close> being one byte,
  and \<open>code_points\<close> reads its characters back: a lead byte with the continuation bytes it
  announces is one character, and any other byte counts as the character of that number (so
  that a string of characters below U+0100 written one byte each, with no such sequence in
  it, reads as itself).

  \<^verbatim>\<open>s.trim()\<close> removes from both ends of \<open>s\<close> the characters that ECMAScript calls
  \<^verbatim>\<open>WhiteSpace\<close> (TAB, VT, FF, U+FEFF and the space separators U+0020, U+00A0, U+1680,
  U+2000 to U+200A, U+202F, U+205F, U+3000) or \<^verbatim>\<open>LineTerminator\<close> (LF, CR, U+2028, U+2029).
  So \<^verbatim>\<open>!s.trim()\<close> holds exactly when every character of \<open>s\<close> is one of these.
\<close>

definition byte_in :: "char \<Rightarrow> nat \<Rightarrow> nat \<Rightarrow> bool" where
  "byte_in b lo hi = (lo \<le> of_char b \<and> of_char b < hi)"

definition continuation :: "char \<Rightarrow> bool" where
  "continuation b = byte_in b 0x80 0xC0"

definition two_bytes :: "char \<Rightarrow> char \<Rightarrow> nat" where
  "two_bytes a b = (of_char a - 0xC0) * 64 + (of_char b - 0x80)"

definition three_bytes :: "char \<Rightarrow> char \<Rightarrow> char \<Rightarrow> nat" where
  "three_bytes a b c = (of_char a - 0xE0) * 4096 + (of_char b - 0x80) * 64 + (of_char c - 0x80)"

definition four_bytes :: "char \<Rightarrow> char \<Rightarrow> char \<Rightarrow> char \<Rightarrow> nat" where
  "four_bytes a b c d =
     (of_char a - 0xF0) * 262144 + (of_char b - 0x80) * 4096 + (of_char c - 0x80) * 64
       + (of_char d - 0x80)"

fun code_points :: "string \<Rightarrow> nat list" where
  "code_points [] = []"
| "code_points [a] = [of_char a]"
| "code_points [a, b] =
     (if byte_in a 0xC0 0xE0 \<and> continuation b then [two_bytes a b]
      else of_char a # code_points [b])"
| "code_points [a, b, c] =
     (if byte_in a 0xE0 0xF0 \<and> continuation b \<and> continuation c then [three_bytes a b c]
      else if byte_in a 0xC0 0xE0 \<and> continuation b then two_bytes a b # code_points [c]
      else of_char a # code_points [b, c])"
| "code_points (a # b # c # d # s) =
     (if byte_in a 0xF0 0xF8 \<and> continuation b \<and> continuation c \<and> continuation d
      then four_bytes a b c d # code_points s
      else if byte_in a 0xE0 0xF0 \<and> continuation b \<and> continuation c
      then three_bytes a b c # code_points (d # s)
      else if byte_in a 0xC0 0xE0 \<and> continuation b then two_bytes a b # code_points (c # d # s)
      else of_char a # code_points (b # c # d # s))"

definition is_space :: "nat \<Rightarrow> bool" where
  "is_space c =
     (c \<in> set [0x09, 0x0A, 0x0B, 0x0C, 0x0D, 0x20, 0xA0, 0x1680, 0x2028, 0x2029, 0x202F, 0x205F,
               0x3000, 0xFEFF]
      \<or> 0x2000 \<le> c \<and> c \<le> 0x200A)"

definition trim_empty :: "string \<Rightarrow> bool" where
  "trim_empty s = list_all is_space (code_points s)"

text \<open>\<^verbatim>\<open>s.split(',')[1]\<close>: the text between the first and the second comma, \<^verbatim>\<open>undefined\<close>
  when \<open>s\<close> has no comma.\<close>

definition split_comma_1 :: "string \<Rightarrow> string option" where
  "split_comma_1 s =
     (case dropWhile (\<lambda>c. c \<noteq> CHR '','') s of
        [] \<Rightarrow> None
      | _ # rest \<Rightarrow> Some (takeWhile (\<lambda>c. c \<noteq> CHR '','') rest))"

section \<open>The data model (types.ts)\<close>

text \<open>A \<^verbatim>\<open>number\<close> that holds a coordinate or a size is a real: the rounding of floating-point
  arithmetic is not modelled. The fields \<^verbatim>\<open>x\<close> and \<^verbatim>\<open>y\<close> are named \<open>pos_x\<close> and \<open>pos_y\<close>.\<close>

record Rect =
  pos_x :: real
  pos_y :: real
  width :: real
  height :: real

datatype LayerType = Base | Object

text \<open>A \<^verbatim>\<open>MapLayer\<close> has the four fields of a \<^verbatim>\<open>Rect\<close> (\<^verbatim>\<open>x\<close>, \<^verbatim>\<open>y\<close>, \<^verbatim>\<open>width\<close>,
  \<^verbatim>\<open>height\<close>) and six more; \<^verbatim>\<open>zIndex\<close> only ever holds integers.\<close>

record MapLayer = Rect +
  layer_id :: string
  name :: string
  layer_type :: LayerType
  imageData :: string
  visible :: bool
  zIndex :: int

record MapSettings =
  artStyle :: string
  projection :: string
  sunDirection :: string

datatype ActiveTool = Pointer | Rectangle | Brush | Eraser

text \<open>A prompt sent to the model: which template of \<^verbatim>\<open>geminiService.ts\<close> it was built from
  and the values interpolated into it (the fixed wording of the templates is left out).\<close>

datatype prompt_text =
    AssetContextPrompt string MapSettings
  | AssetIsolatedPrompt string MapSettings
  | BaseTexturePrompt string MapSettings
  | SeamlessPrompt "string list" string MapSettings

datatype LogType = Seamless | Asset | BaseLog

record DebugLog =
  timestamp :: nat
  log_type :: LogType
  log_prompt :: prompt_text
  inputImage :: "string option"

section \<open>Promises, canvases and the browser\<close>

text \<open>What a rejected promise or a \<^verbatim>\<open>throw\<close> carries: an \<^verbatim>\<open>Error\<close> object with its message,
  a bare string, or the event of a failed image load.\<close>

datatype js_error = Error string | Thrown string | LoadFailed

text \<open>A promise, seen by the code that awaits it: \<open>Pending\<close> is a promise that never
  settles.\<close>

datatype 'a promise = Resolved 'a | Rejected js_error | Pending

text \<open>
  A canvas is the size assigned to it and the drawing calls made on its context, oldest
  first. \<open>DrawImage src dx dy\<close> draws the image at its natural size,
  \<open>DrawImageScaled src dx dy dw dh\<close> into a destination rectangle and
  \<open>DrawImageCrop src sx sy sw sh dx dy dw dh\<close> a source rectangle into a destination
  rectangle; \<open>FillRect style x y w h\<close> fills with the current \<^verbatim>\<open>fillStyle\<close>.
\<close>

datatype paint_op =
    FillRect string real real real real
  | DrawImage string real real
  | DrawImageScaled string real real real real
  | DrawImageCrop string real real real real real real real real
  | PutImageData "byte list"

record canvas =
  cv_width :: real
  cv_height :: real
  cv_ops :: "paint_op list"

text \<open>A part of a request to the model, and the response: \<open>None\<close> when
  \<^verbatim>\<open>response.candidates?.[0]?.content?.parts\<close> is undefined, else the parts, each with its
  \<^verbatim>\<open>inlineData\<close> (mime type and data) if it has one.\<close>

datatype request_part = InlineData string "string option" | TextPart prompt_text

type_synonym response = "(string \<times> string) option list option"

text \<open>
  What the code gets from outside: the API key of the environment, the model
  (\<^verbatim>\<open>ai.models.generateContent\<close>), the clock, whether \<^verbatim>\<open>getContext('2d')\<close> gives a
  context, the natural size of an image when it loads (\<open>None\<close>: its \<^verbatim>\<open>onerror\<close> fires),
  the pixels \<^verbatim>\<open>getImageData\<close> reads from a whole canvas, \<^verbatim>\<open>toDataURL\<close>, and, for images
  loading side by side, the order in which their load events fire: \<open>loadEvents srcs\<close> lists
  (index into \<open>srcs\<close>, loaded or failed), first event first.
\<close>

record platform =
  API_KEY :: "string option"
  generateContent :: "request_part list \<Rightarrow> response promise"
  Date_now :: nat
  context2d :: bool
  loadImage :: "string \<Rightarrow> (nat \<times> nat) option"
  getImageData :: "canvas \<Rightarrow> byte list"
  toDataURL :: "canvas \<Rightarrow> string"
  loadEvents :: "string list \<Rightarrow> (nat \<times> bool) list"

section \<open>Image utilities (services/imageUtils.ts)\<close>

subsection \<open>removeMagentaBackground\<close>

text \<open>The distance of the pixel at index \<open>i\<close> to the target magenta (R 255, G 0, B 255), a sum
  of absolute differences; below the threshold 100 the alpha byte is cleared.\<close>

definition magenta_dist :: "byte list \<Rightarrow> nat \<Rightarrow> int option" where
  "magenta_dist d i =
     plus_num (plus_num (abs_diff (rd d i) (Some 255)) (abs_diff (rd d (i + 1)) (Some 0)))
       (abs_diff (rd d (i + 2)) (Some 255))"

definition magenta_step :: "nat \<Rightarrow> byte list \<Rightarrow> byte list" where
  "magenta_step i d = (if less_num (magenta_dist d i) 100 then d[i + 3 := 0] else d)"

lemma length_magenta_step: "length (magenta_step i d) = length d"
  by (simp add: magenta_step_def)

text \<open>The loop \<^verbatim>\<open>for (let i = 0; i < data.length; i += 4)\<close>, from index \<open>i\<close> on.\<close>

function magenta_loop :: "nat \<Rightarrow> byte list \<Rightarrow> byte list" where
  "magenta_loop i d = (if i < length d then magenta_loop (i + 4) (magenta_step i d) else d)"
  by pat_completeness auto
termination
  by (relation "measure (\<lambda>(i, d). length d - i)") (auto simp: length_magenta_step)

declare magenta_loop.simps [simp del]

definition removeMagentaBackground :: "platform \<Rightarrow> string \<Rightarrow> string promise" where
  "removeMagentaBackground P imageSrc =
     (case loadImage P imageSrc of
        None \<Rightarrow> Rejected LoadFailed
      | Some (w, h) \<Rightarrow>
          if \<not> context2d P then Rejected (Thrown ''Could not get canvas context'')
          else
            let cv = \<lparr>cv_width = real w, cv_height = real h, cv_ops = [DrawImage imageSrc 0 0]\<rparr>;
                data = magenta_loop 0 (getImageData P cv)
            in Resolved (toDataURL P (cv\<lparr>cv_ops := cv_ops cv @ [PutImageData data]\<rparr>)))"

subsection \<open>compositeLayers and getCompositeRect\<close>

text \<open>
  Both functions create one \<^verbatim>\<open>Image\<close> per layer, in the sorted order, and draw a layer from
  its \<^verbatim>\<open>onload\<close> handler; \<^verbatim>\<open>onerror\<close> only counts. The promise resolves, with the canvas as
  it is then, when the count of events reaches the number of images. \<open>drain_loads\<close> runs the
  handlers over the load events in the order they fire: \<open>n\<close> is \<^verbatim>\<open>loadedCount\<close>, \<open>ops\<close> the
  drawing calls so far, and \<open>None\<close> means that the count is never reached.
\<close>

fun drain_loads ::
  "'a list \<Rightarrow> ('a \<Rightarrow> paint_op) \<Rightarrow> (nat \<times> bool) list \<Rightarrow> nat \<Rightarrow> paint_op list \<Rightarrow> paint_op list option"
where
  "drain_loads imgs draw [] n ops = None"
| "drain_loads imgs draw ((k, ok) # es) n ops =
     (if k < length imgs then
        let ops' = (if ok then ops @ [draw (imgs ! k)] else ops) in
        if n + 1 = length imgs then Some ops' else drain_loads imgs draw es (n + 1) ops'
      else drain_loads imgs draw es n ops)"

definition map_promise :: "('a \<Rightarrow> 'b) \<Rightarrow> 'a promise \<Rightarrow> 'b promise" where
  "map_promise f p = (case p of Resolved v \<Rightarrow> Resolved (f v) | Rejected e \<Rightarrow> Rejected e | Pending \<Rightarrow> Pending)"

text \<open>\<^verbatim>\<open>[...layers].sort((a, b) => a.zIndex - b.zIndex)\<close>: \<^verbatim>\<open>Array.prototype.sort\<close> is stable,
  as is insertion sort by key.\<close>

definition sort_by_zIndex :: "MapLayer list \<Rightarrow> MapLayer list" where
  "sort_by_zIndex ls = sort_key zIndex ls"

definition draw_layer :: "real \<Rightarrow> real \<Rightarrow> MapLayer \<Rightarrow> paint_op" where
  "draw_layer ox oy l = DrawImageScaled (imageData l) (pos_x l - ox) (pos_y l - oy) (width l) (height l)"

text \<open>The canvas \<^verbatim>\<open>getCompositeRect\<close> resolves with, when it has a context.\<close>

definition getCompositeRect_canvas :: "platform \<Rightarrow> Rect \<Rightarrow> MapLayer list \<Rightarrow> canvas promise" where
  "getCompositeRect_canvas P rect layers =
     (let background = [FillRect ''#000000'' 0 0 (width rect) (height rect)];
          sorted = sort_by_zIndex layers;
          visible_ls = filter visible sorted;
          cv = \<lparr>cv_width = width rect, cv_height = height rect, cv_ops = background\<rparr>
      in if length visible_ls = 0 then Resolved cv
         else case drain_loads visible_ls (draw_layer (pos_x rect) (pos_y rect))
                     (loadEvents P (map imageData visible_ls)) 0 background of
                None \<Rightarrow> Pending
              | Some ops \<Rightarrow> Resolved (cv\<lparr>cv_ops := ops\<rparr>))"

definition getCompositeRect :: "platform \<Rightarrow> Rect \<Rightarrow> MapLayer list \<Rightarrow> string promise" where
  "getCompositeRect P rect layers =
     (if \<not> context2d P then Resolved []
      else map_promise (toDataURL P) (getCompositeRect_canvas P rect layers))"

text \<open>\<^verbatim>\<open>Math.min\<close> and \<^verbatim>\<open>Math.max\<close> on an accumulator that starts at plus or minus
  \<^verbatim>\<open>Infinity\<close>, which is \<open>None\<close>.\<close>

fun min_inf :: "real option \<Rightarrow> real \<Rightarrow> real option" where
  "min_inf None v = Some v"
| "min_inf (Some m) v = Some (min m v)"

fun max_inf :: "real option \<Rightarrow> real \<Rightarrow> real option" where
  "max_inf None v = Some v"
| "max_inf (Some m) v = Some (max m v)"

text \<open>The difference of two bounds; of infinities it is \<^verbatim>\<open>NaN\<close>, which a canvas takes
  as size 0.\<close>

fun extent :: "real option \<Rightarrow> real option \<Rightarrow> real" where
  "extent (Some hi) (Some lo) = hi - lo"
| "extent _ _ = 0"

fun or_zero :: "real option \<Rightarrow> real" where
  "or_zero (Some v) = v"
| "or_zero None = 0"

definition compositeLayers_canvas :: "platform \<Rightarrow> real \<Rightarrow> real \<Rightarrow> MapLayer list \<Rightarrow> canvas promise" where
  "compositeLayers_canvas P w h layers =
     (let visibleLayers = filter visible layers;
          minX = fold (\<lambda>l m. min_inf m (pos_x l)) visibleLayers None;
          minY = fold (\<lambda>l m. min_inf m (pos_y l)) visibleLayers None;
          maxX = fold (\<lambda>l m. max_inf m (pos_x l + width l)) visibleLayers None;
          maxY = fold (\<lambda>l m. max_inf m (pos_y l + height l)) visibleLayers None;
          exportWidth = (if w \<noteq> 0 then w else extent maxX minX);
          exportHeight = (if h \<noteq> 0 then h else extent maxY minY);
          offsetX = (if w \<noteq> 0 then 0 else or_zero minX);
          offsetY = (if h \<noteq> 0 then 0 else or_zero minY);
          cv = \<lparr>cv_width = exportWidth, cv_height = exportHeight, cv_ops = []\<rparr>;
          sorted = sort_by_zIndex visibleLayers
      in case drain_loads sorted (draw_layer offsetX offsetY)
                (loadEvents P (map imageData sorted)) 0 [] of
           None \<Rightarrow> Pending
         | Some ops \<Rightarrow> Resolved (cv\<lparr>cv_ops := ops\<rparr>))"

definition compositeLayers :: "platform \<Rightarrow> real \<Rightarrow> real \<Rightarrow> MapLayer list \<Rightarrow> string promise" where
  "compositeLayers P w h layers =
     (if length (filter visible layers) = 0
      then Resolved (toDataURL P \<lparr>cv_width = w, cv_height = h, cv_ops = []\<rparr>)
      else if \<not> context2d P then Resolved []
      else map_promise (toDataURL P) (compositeLayers_canvas P w h layers))"

subsection \<open>overlayImage and cropAndResize\<close>

definition overlayImage :: "platform \<Rightarrow> string \<Rightarrow> string \<Rightarrow> string promise" where
  "overlayImage P baseSrc overlaySrc =
     (case (loadImage P baseSrc, loadImage P overlaySrc) of
        (Some (w, h), Some _) \<Rightarrow>
          if context2d P
          then Resolved (toDataURL P \<lparr>cv_width = real w, cv_height = real h,
                 cv_ops = [DrawImage baseSrc 0 0, DrawImage overlaySrc 0 0]\<rparr>)
          else Rejected (Thrown ''Failed to create canvas context'')
      | _ \<Rightarrow> Rejected LoadFailed)"

definition cropAndResize_canvas ::
  "string \<Rightarrow> real \<Rightarrow> real \<Rightarrow> real \<Rightarrow> real \<Rightarrow> real \<Rightarrow> real \<Rightarrow> canvas" where
  "cropAndResize_canvas base64Image sx sy w h targetW targetH =
     \<lparr>cv_width = targetW, cv_height = targetH,
      cv_ops = [DrawImageCrop base64Image sx sy w h 0 0 targetW targetH]\<rparr>"

definition cropAndResize ::
  "platform \<Rightarrow> string \<Rightarrow> real \<Rightarrow> real \<Rightarrow> real \<Rightarrow> real \<Rightarrow> real \<Rightarrow> real \<Rightarrow> string promise" where
  "cropAndResize P base64Image sx sy w h targetW targetH =
     (case loadImage P base64Image of
        None \<Rightarrow> Rejected LoadFailed
      | Some _ \<Rightarrow>
          if \<not> context2d P then Rejected (Thrown ''No ctx'')
          else Resolved (toDataURL P (cropAndResize_canvas base64Image sx sy w h targetW targetH)))"

subsection \<open>createDifferenceLayer\<close>

text \<open>The distance between the original and the generated pixel at index \<open>i\<close>; below the
  threshold 35 the generated pixel becomes transparent, otherwise opaque.\<close>

definition diff_dist :: "byte list \<Rightarrow> byte list \<Rightarrow> nat \<Rightarrow> int option" where
  "diff_dist dataOrig dataGen i =
     plus_num
       (plus_num (abs_diff (rd dataOrig i) (rd dataGen i))
          (abs_diff (rd dataOrig (i + 1)) (rd dataGen (i + 1))))
       (abs_diff (rd dataOrig (i + 2)) (rd dataGen (i + 2)))"

definition diff_step :: "byte list \<Rightarrow> nat \<Rightarrow> byte list \<Rightarrow> byte list" where
  "diff_step dataOrig i dataGen =
     (if less_num (diff_dist dataOrig dataGen i) 35 then dataGen[i + 3 := 0]
      else dataGen[i + 3 := 255])"

lemma length_diff_step: "length (diff_step dataOrig i dataGen) = length dataGen"
  by (simp add: diff_step_def)

text \<open>The loop \<^verbatim>\<open>for (let i = 0; i < dataGen.length; i += 4)\<close>, from index \<open>i\<close> on.\<close>

function diff_loop :: "byte list \<Rightarrow> nat \<Rightarrow> byte list \<Rightarrow> byte list" where
  "diff_loop dataOrig i dataGen =
     (if i < length dataGen then diff_loop dataOrig (i + 4) (diff_step dataOrig i dataGen)
      else dataGen)"
  by pat_completeness auto
termination
  by (relation "measure (\<lambda>(dataOrig, i, dataGen). length dataGen - i)")
     (auto simp: length_diff_step)

declare diff_loop.simps [simp del]

text \<open>The canvas \<^verbatim>\<open>createDifferenceLayer\<close> encodes: it has the size of the generated image
  \<open>(w, h)\<close>; the original is drawn scaled to that size on a canvas of its own.\<close>

definition createDifferenceLayer_canvas :: "platform \<Rightarrow> string \<Rightarrow> string \<Rightarrow> nat \<Rightarrow> nat \<Rightarrow> canvas" where
  "createDifferenceLayer_canvas P originalBase64 generatedBase64 w h =
     (let cOrig = \<lparr>cv_width = real w, cv_height = real h,
                   cv_ops = [DrawImageScaled originalBase64 0 0 (real w) (real h)]\<rparr>;
          dataOrig = getImageData P cOrig;
          cv = \<lparr>cv_width = real w, cv_height = real h, cv_ops = [DrawImage generatedBase64 0 0]\<rparr>;
          dataGen = getImageData P cv
      in cv\<lparr>cv_ops := cv_ops cv @ [PutImageData (diff_loop dataOrig 0 dataGen)]\<rparr>)"

text \<open>Neither image has an \<^verbatim>\<open>onerror\<close> handler: a failed load leaves the promise pending.\<close>

definition createDifferenceLayer :: "platform \<Rightarrow> string \<Rightarrow> string \<Rightarrow> string promise" where
  "createDifferenceLayer P originalBase64 generatedBase64 =
     (case (loadImage P originalBase64, loadImage P generatedBase64) of
        (Some _, Some (w, h)) \<Rightarrow>
          if \<not> context2d P then Rejected (Thrown ''No ctx'')
          else Resolved (toDataURL P (createDifferenceLayer_canvas P originalBase64 generatedBase64 w h))
      | _ \<Rightarrow> Pending)"

subsection \<open>getContentBounds\<close>

record scan =
  minX :: nat
  minY :: nat
  maxX :: nat
  maxY :: nat
  found :: bool

definition scan_pixel :: "nat \<Rightarrow> byte list \<Rightarrow> nat \<Rightarrow> nat \<Rightarrow> scan \<Rightarrow> scan" where
  "scan_pixel canvasW d py px s =
     (let i = (py * canvasW + px) * 4; alpha = rd d (i + 3) in
      if greater_num alpha 0 then
        \<lparr>minX = (if px < minX s then px else minX s),
         minY = (if py < minY s then py else minY s),
         maxX = (if px > maxX s then px else maxX s),
         maxY = (if py > maxY s then py else maxY s),
         found = True\<rparr>
      else s)"

text \<open>The two nested \<^verbatim>\<open>for\<close> loops, rows outside and columns inside.\<close>

definition scan_pixels :: "nat \<Rightarrow> nat \<Rightarrow> byte list \<Rightarrow> scan" where
  "scan_pixels canvasW canvasH d =
     fold (\<lambda>py. fold (scan_pixel canvasW d py) [0..<canvasW]) [0..<canvasH]
       \<lparr>minX = canvasW, minY = canvasH, maxX = 0, maxY = 0, found = False\<rparr>"

definition content_bounds :: "nat \<Rightarrow> nat \<Rightarrow> byte list \<Rightarrow> Rect option" where
  "content_bounds canvasW canvasH d =
     (let s = scan_pixels canvasW canvasH d in
      if \<not> found s then None
      else Some \<lparr>pos_x = real (minX s), pos_y = real (minY s),
                 width = real (maxX s) - real (minX s), height = real (maxY s) - real (minY s)\<rparr>)"

text \<open>The image has no \<^verbatim>\<open>onerror\<close> handler: a failed load leaves the promise pending.\<close>

definition getContentBounds :: "platform \<Rightarrow> string \<Rightarrow> nat \<Rightarrow> nat \<Rightarrow> Rect option promise" where
  "getContentBounds P imageSrc canvasW canvasH =
     (case loadImage P imageSrc of
        None \<Rightarrow> Pending
      | Some _ \<Rightarrow>
          if \<not> context2d P then Resolved None
          else Resolved (content_bounds canvasW canvasH
                 (getImageData P \<lparr>cv_width = real canvasW, cv_height = real canvasH,
                                   cv_ops = [DrawImage imageSrc 0 0]\<rparr>)))"

subsection \<open>Pixels of a mask\<close>

text \<open>The pixel \<open>p = (x, y)\<close> of a row-major RGBA buffer of width \<open>canvasW\<close> has alpha above 0;
  the set of such pixels inside a \<open>canvasW\<close> by \<open>canvasH\<close> canvas; and the body of the scanning
  loops at one pixel.\<close>

definition lit :: "nat \<Rightarrow> byte list \<Rightarrow> nat \<times> nat \<Rightarrow> bool" where
  "lit canvasW d p = greater_num (rd d ((snd p * canvasW + fst p) * 4 + 3)) 0"

definition lit_pixels :: "nat \<Rightarrow> nat \<Rightarrow> byte list \<Rightarrow> (nat \<times> nat) set" where
  "lit_pixels canvasW canvasH d = {p. fst p < canvasW \<and> snd p < canvasH \<and> lit canvasW d p}"

definition scan_at :: "nat \<Rightarrow> byte list \<Rightarrow> nat \<times> nat \<Rightarrow> scan \<Rightarrow> scan" where
  "scan_at canvasW d p = scan_pixel canvasW d (snd p) (fst p)"

text \<open>A browser used in examples: every image loads, as a 2 by 2 image whose canvas holds
  the bytes \<open>d\<close>, and load events fire in the order the loads were started.\<close>

definition example_browser :: "byte list \<Rightarrow> platform" where
  "example_browser d =
     \<lparr>API_KEY = None, generateContent = (\<lambda>_. Pending), Date_now = 0, context2d = True,
      loadImage = (\<lambda>_. Some (2, 2)), getImageData = (\<lambda>_. d), toDataURL = (\<lambda>_. ''url''),
      loadEvents = (\<lambda>srcs. map (\<lambda>k. (k, True)) [0..<length srcs])\<rparr>"

section \<open>The model service (services/geminiService.ts)\<close>

text \<open>
  A service function calls \<^verbatim>\<open>onDebug\<close> at most once and returns a promise: its value is the
  list of debug records handed to \<^verbatim>\<open>onDebug\<close> and the promise. \<open>bindT\<close> is \<^verbatim>\<open>await\<close> followed by
  the rest of an \<^verbatim>\<open>async\<close> function: a rejection or a promise that never settles ends it.
\<close>

type_synonym 'a traced = "DebugLog list \<times> 'a promise"

definition awaitT :: "'a promise \<Rightarrow> 'a traced" where
  "awaitT p = ([], p)"

definition bindT :: "'a traced \<Rightarrow> ('a \<Rightarrow> 'b traced) \<Rightarrow> 'b traced" where
  "bindT m f =
     (case m of
        (logs, Resolved v) \<Rightarrow> (case f v of (logs', p) \<Rightarrow> (logs @ logs', p))
      | (logs, Rejected e) \<Rightarrow> (logs, Rejected e)
      | (logs, Pending) \<Rightarrow> (logs, Pending))"

text \<open>A string in a condition: \<^verbatim>\<open>undefined\<close> and the empty string are false.\<close>

definition truthy :: "string option \<Rightarrow> bool" where
  "truthy v = (case v of None \<Rightarrow> False | Some s \<Rightarrow> s \<noteq> [])"

text \<open>\<^verbatim>\<open>for (const part of response.candidates?.[0]?.content?.parts || [])\<close>, returning at the
  first part that has \<^verbatim>\<open>inlineData\<close>.\<close>

definition response_parts :: "response \<Rightarrow> (string \<times> string) option list" where
  "response_parts r = (case r of None \<Rightarrow> [] | Some ps \<Rightarrow> ps)"

fun first_inlineData :: "(string \<times> string) option list \<Rightarrow> (string \<times> string) option" where
  "first_inlineData [] = None"
| "first_inlineData (Some d # ps) = Some d"
| "first_inlineData (None # ps) = first_inlineData ps"

definition data_url :: "string \<times> string \<Rightarrow> string" where
  "data_url d = ''data:'' @ fst d @ '';base64,'' @ snd d"

definition generateMapAsset ::
  "platform \<Rightarrow> string \<Rightarrow> MapSettings \<Rightarrow> string option \<Rightarrow> string traced" where
  "generateMapAsset P prompt_arg settings contextImageBase64 =
     (if \<not> truthy (API_KEY P)
      then ([], Rejected (Error ''API Key not found in environment variables''))
      else
        let (finalPrompt, parts, debugInputImage) =
              (if truthy contextImageBase64
               then (AssetContextPrompt prompt_arg settings,
                     [InlineData ''image/png'' (split_comma_1 (the contextImageBase64)),
                      TextPart (AssetContextPrompt prompt_arg settings)],
                     contextImageBase64)
               else (AssetIsolatedPrompt prompt_arg settings,
                     [TextPart (AssetIsolatedPrompt prompt_arg settings)], None));
            log = \<lparr>timestamp = Date_now P, log_type = Asset, log_prompt = finalPrompt,
                   inputImage = debugInputImage\<rparr>
        in ([log],
            case generateContent P parts of
              Resolved r \<Rightarrow>
                (case first_inlineData (response_parts r) of
                   Some d \<Rightarrow> Resolved (data_url d)
                 | None \<Rightarrow> Rejected (Error ''No image data found in response''))
            | Rejected e \<Rightarrow> Rejected e
            | Pending \<Rightarrow> Pending))"

definition generateBaseTexture :: "platform \<Rightarrow> string \<Rightarrow> MapSettings \<Rightarrow> string traced" where
  "generateBaseTexture P promptInput settings =
     (if \<not> truthy (API_KEY P)
      then ([], Rejected (Error ''API Key not found in environment variables''))
      else
        ([\<lparr>timestamp = Date_now P, log_type = BaseLog,
           log_prompt = BaseTexturePrompt promptInput settings, inputImage = None\<rparr>],
         case generateContent P [TextPart (BaseTexturePrompt promptInput settings)] of
           Resolved r \<Rightarrow>
             (case first_inlineData (response_parts r) of
                Some d \<Rightarrow> Resolved (data_url d)
              | None \<Rightarrow> Rejected (Error ''No base texture generated''))
         | Rejected e \<Rightarrow> Rejected e
         | Pending \<Rightarrow> Pending))"

subsection \<open>generateSeamlessTexture\<close>

record neighbors =
  nb_left :: "string option"
  nb_right :: "string option"
  nb_top :: "string option"
  nb_bottom :: "string option"

definition TARGET_SIZE :: real where "TARGET_SIZE = 1024"

definition STRIP_SIZE :: real where "STRIP_SIZE = 256"

definition contentW :: "neighbors \<Rightarrow> real" where
  "contentW n = TARGET_SIZE + (if truthy (nb_left n) then STRIP_SIZE else 0)
                  + (if truthy (nb_right n) then STRIP_SIZE else 0)"

definition contentH :: "neighbors \<Rightarrow> real" where
  "contentH n = TARGET_SIZE + (if truthy (nb_top n) then STRIP_SIZE else 0)
                  + (if truthy (nb_bottom n) then STRIP_SIZE else 0)"

definition stitch_targetX :: "neighbors \<Rightarrow> real" where
  "stitch_targetX n = (if truthy (nb_left n) then STRIP_SIZE else 0)"

definition stitch_targetY :: "neighbors \<Rightarrow> real" where
  "stitch_targetY n = (if truthy (nb_top n) then STRIP_SIZE else 0)"

definition canvasSize :: "neighbors \<Rightarrow> real" where
  "canvasSize n = max (contentW n) (contentH n)"

text \<open>The calls of \<^verbatim>\<open>loadAndDraw\<close>, in the order they are pushed on \<^verbatim>\<open>promises\<close>: the source of
  each strip and where it is drawn; and \<^verbatim>\<open>activeDirections\<close>.\<close>

definition stitch_strips :: "neighbors \<Rightarrow> (string \<times> real \<times> real) list" where
  "stitch_strips n =
     (if truthy (nb_left n) then [(the (nb_left n), 0, stitch_targetY n)] else [])
     @ (if truthy (nb_right n) then [(the (nb_right n), stitch_targetX n + TARGET_SIZE, stitch_targetY n)] else [])
     @ (if truthy (nb_top n) then [(the (nb_top n), stitch_targetX n, 0)] else [])
     @ (if truthy (nb_bottom n) then [(the (nb_bottom n), stitch_targetX n, stitch_targetY n + TARGET_SIZE)] else [])"

definition activeDirections :: "neighbors \<Rightarrow> string list" where
  "activeDirections n =
     (if truthy (nb_left n) then [''LEFT''] else [])
     @ (if truthy (nb_right n) then [''RIGHT''] else [])
     @ (if truthy (nb_top n) then [''TOP''] else [])
     @ (if truthy (nb_bottom n) then [''BOTTOM''] else [])"

text \<open>\<^verbatim>\<open>loadAndDraw\<close> draws a strip when its image has loaded and has no \<^verbatim>\<open>onerror\<close> handler:
  the drawing calls made, in the order of the load events, and whether every strip has
  loaded, which is when \<^verbatim>\<open>Promise.all(promises)\<close> resolves.\<close>

fun strip_draws :: "(string \<times> real \<times> real) list \<Rightarrow> (nat \<times> bool) list \<Rightarrow> paint_op list" where
  "strip_draws strips [] = []"
| "strip_draws strips ((k, ok) # es) =
     (if k < length strips \<and> ok
      then (case strips ! k of (src, dx, dy) \<Rightarrow> DrawImage src dx dy) # strip_draws strips es
      else strip_draws strips es)"

definition all_loaded :: "(string \<times> real \<times> real) list \<Rightarrow> (nat \<times> bool) list \<Rightarrow> bool" where
  "all_loaded strips es = list_all (\<lambda>k. (k, True) \<in> set es) [0..<length strips]"

text \<open>
  The canvas sent to the model. After the background fill the strips are drawn as they
  load; once all have loaded the target square is filled with magenta. The second
  \<^verbatim>\<open>await Promise.all(promises)\<close> awaits the promises of the draws already made, which are
  resolved: it draws nothing.
\<close>

definition stitch_canvas :: "neighbors \<Rightarrow> (nat \<times> bool) list \<Rightarrow> canvas" where
  "stitch_canvas n es =
     \<lparr>cv_width = canvasSize n, cv_height = canvasSize n,
      cv_ops = [FillRect ''#222222'' 0 0 (canvasSize n) (canvasSize n)]
               @ strip_draws (stitch_strips n) es
               @ [FillRect ''#FF00FF'' (stitch_targetX n) (stitch_targetY n) TARGET_SIZE TARGET_SIZE]\<rparr>"

text \<open>Step 4 of the function: the crop of the generated image, \<open>(cropX, cropY, cropW, cropH)\<close>.\<close>

definition outputSize :: real where "outputSize = 1024"

definition crop_scale :: "neighbors \<Rightarrow> real" where
  "crop_scale n = outputSize / canvasSize n"

definition crop_rect :: "neighbors \<Rightarrow> real \<times> real \<times> real \<times> real" where
  "crop_rect n =
     (stitch_targetX n * crop_scale n, stitch_targetY n * crop_scale n,
      TARGET_SIZE * crop_scale n, TARGET_SIZE * crop_scale n)"

definition generateSeamlessTexture ::
  "platform \<Rightarrow> neighbors \<Rightarrow> MapSettings \<Rightarrow> string \<Rightarrow> string traced" where
  "generateSeamlessTexture P n settings basePrompt_arg =
     (if \<not> truthy (API_KEY P)
      then ([], Rejected (Error ''API Key not found in environment variables''))
      else if \<not> context2d P then ([], Rejected (Error ''Canvas context failed''))
      else
        let es = loadEvents P (map fst (stitch_strips n)) in
        if \<not> all_loaded (stitch_strips n) es then ([], Pending)
        else
          let inputImageBase64 = split_comma_1 (toDataURL P (stitch_canvas n es));
              prompt_t = SeamlessPrompt (activeDirections n) basePrompt_arg settings;
              log = \<lparr>timestamp = Date_now P, log_type = Seamless, log_prompt = prompt_t,
                     inputImage = Some (''data:image/png;base64,''
                       @ (case inputImageBase64 of None \<Rightarrow> ''undefined'' | Some b \<Rightarrow> b))\<rparr>
          in ([log],
              case generateContent P [InlineData ''image/png'' inputImageBase64, TextPart prompt_t] of
                Resolved r \<Rightarrow>
                  (case first_inlineData (response_parts r) of
                     None \<Rightarrow> Rejected (Error ''No seamless texture generated'')
                   | Some d \<Rightarrow>
                       (case crop_rect n of (cropX, cropY, cropW, cropH) \<Rightarrow>
                          cropAndResize P (data_url d) cropX cropY cropW cropH TARGET_SIZE TARGET_SIZE))
              | Rejected e \<Rightarrow> Rejected e
              | Pending \<Rightarrow> Pending))"

section \<open>The application (App.tsx)\<close>

definition CANVAS_WIDTH :: real where "CANVAS_WIDTH = 1024"

definition CANVAS_HEIGHT :: real where "CANVAS_HEIGHT = 1024"

text \<open>The state of the \<^verbatim>\<open>App\<close> component: one field per \<^verbatim>\<open>useState\<close> the handlers below read
  or write. A handler reads the state of the render it was created in and writes through
  the setters.\<close>

record AppState =
  layers :: "MapLayer list"
  history :: "MapLayer list list"
  historyIndex :: int
  selection :: "Rect option"
  selectedLayerId :: "string option"
  activeTool :: ActiveTool
  brushMask :: "string option"
  prompt :: string
  isGenerating :: bool
  error :: "string option"
  viewState :: "real \<times> real"
  mapSettings :: MapSettings
  isBaseModalOpen :: bool
  basePrompt :: string
  lastBasePrompt :: string
  debugLog :: "DebugLog option"

definition viewX :: "AppState \<Rightarrow> real" where "viewX s = fst (viewState s)"

definition viewY :: "AppState \<Rightarrow> real" where "viewY s = snd (viewState s)"

definition initial_state :: AppState where
  "initial_state =
     \<lparr>layers = [], history = [], historyIndex = - 1, selection = None, selectedLayerId = None,
      activeTool = Pointer, brushMask = None, prompt = [], isGenerating = False, error = None,
      viewState = (0, 0),
      mapSettings = \<lparr>artStyle = ''Professional 2D RPG game art, semi-realistic with hand-painted details'',
                     projection = ''Top-down orthographic (Bird's eye view)'',
                     sunDirection = ''Top-Left''\<rparr>,
      isBaseModalOpen = False, basePrompt = [], lastBasePrompt = ''grassland'', debugLog = None\<rparr>"

subsection \<open>History\<close>

text \<open>\<^verbatim>\<open>xs.slice(0, e)\<close>: a negative end counts from the end of the array.\<close>

definition slice0 :: "'a list \<Rightarrow> int \<Rightarrow> 'a list" where
  "slice0 xs e = take (nat (if e < 0 then int (length xs) + e else e)) xs"

text \<open>\<^verbatim>\<open>xs[i]\<close> is \<^verbatim>\<open>undefined\<close> outside the array.\<close>

definition nth_opt :: "'a list \<Rightarrow> int \<Rightarrow> 'a option" where
  "nth_opt xs i = (if 0 \<le> i \<and> i < int (length xs) then Some (xs ! nat i) else None)"

text \<open>\<open>addToHistory c newLayers\<close> as called by a handler of the render \<open>c\<close>: \<^verbatim>\<open>history\<close> and
  \<^verbatim>\<open>historyIndex\<close> are read from \<open>c\<close>, the three setters act on the state they are applied
  to.\<close>

definition addToHistory :: "AppState \<Rightarrow> MapLayer list \<Rightarrow> AppState \<Rightarrow> AppState" where
  "addToHistory c newLayers s =
     (let newHistory = slice0 (history c) (historyIndex c + 1) @ [newLayers]
      in s\<lparr>history := newHistory, historyIndex := int (length newHistory) - 1, layers := newLayers\<rparr>)"

text \<open>Undo and redo; \<open>None\<close> is the state in which \<^verbatim>\<open>layers\<close> has been set to \<^verbatim>\<open>undefined\<close>,
  which the next render does not survive.\<close>

definition handleUndo :: "AppState \<Rightarrow> AppState option" where
  "handleUndo s =
     (if historyIndex s > 0 then
        let newIndex = historyIndex s - 1 in
        case nth_opt (history s) newIndex of
          None \<Rightarrow> None
        | Some ls \<Rightarrow> Some (s\<lparr>historyIndex := newIndex, layers := ls, selection := None\<rparr>)
      else Some s)"

definition handleRedo :: "AppState \<Rightarrow> AppState option" where
  "handleRedo s =
     (if historyIndex s < int (length (history s)) - 1 then
        let newIndex = historyIndex s + 1 in
        case nth_opt (history s) newIndex of
          None \<Rightarrow> None
        | Some ls \<Rightarrow> Some (s\<lparr>historyIndex := newIndex, layers := ls, selection := None\<rparr>)
      else Some s)"

text \<open>The sequence \<^verbatim>\<open>commit(sceneA); commit(sceneB); undo(); undo(); redo()\<close>, each step in
  the render that follows the one before.\<close>

definition commit :: "MapLayer list \<Rightarrow> AppState \<Rightarrow> AppState" where
  "commit scene s = addToHistory s scene s"

definition round_trip :: "MapLayer list \<Rightarrow> MapLayer list \<Rightarrow> AppState \<Rightarrow> AppState option" where
  "round_trip sceneA sceneB s =
     Option.bind (Option.bind (handleUndo (commit sceneB (commit sceneA s))) handleUndo) handleRedo"

definition cursor_in_bounds :: "AppState \<Rightarrow> bool" where
  "cursor_in_bounds s = (- 1 \<le> historyIndex s \<and> historyIndex s \<le> int (length (history s)) - 1)"

subsection \<open>The first render\<close>

definition bootstrap :: "platform \<Rightarrow> AppState \<Rightarrow> AppState" where
  "bootstrap P s =
     (if length (layers s) = 0 \<and> length (history s) = 0 then
        let cv = \<lparr>cv_width = 64, cv_height = 64,
                  cv_ops = (if context2d P
                            then [FillRect ''#1a2e1a'' 0 0 64 64, FillRect ''#223822'' 0 0 32 32,
                                  FillRect ''#223822'' 32 32 32 32]
                            else [])\<rparr>;
            baseLayer = \<lparr>pos_x = 0, pos_y = 0, width = CANVAS_WIDTH, height = CANVAS_HEIGHT,
                         layer_id = ''layer-base-0-0'', name = ''Base Start'', layer_type = Base,
                         imageData = toDataURL P cv, visible = True, zIndex = 0\<rparr>;
            initialLayers = [baseLayer]
        in s\<lparr>layers := initialLayers, history := [initialLayers], historyIndex := 0\<rparr>
      else s)"

subsection \<open>Outcome of a \<^verbatim>\<open>try\<close> block\<close>

text \<open>\<^verbatim>\<open>err.message\<close>: only an \<^verbatim>\<open>Error\<close> has one.\<close>

definition err_message :: "js_error \<Rightarrow> string option" where
  "err_message e = (case e of Error m \<Rightarrow> Some m | _ \<Rightarrow> None)"

definition message_or :: "js_error \<Rightarrow> string \<Rightarrow> string" where
  "message_or e dflt = (if truthy (err_message e) then the (err_message e) else dflt)"

definition set_debug_logs :: "DebugLog list \<Rightarrow> AppState \<Rightarrow> AppState" where
  "set_debug_logs logs s = fold (\<lambda>log u. u\<lparr>debugLog := Some log\<rparr>) logs s"

subsection \<open>handleNavigate\<close>

datatype direction = Dir_top | Dir_bottom | Dir_left | Dir_right

definition EPSILON :: real where "EPSILON = 100"

definition hasLeft :: "MapLayer list \<Rightarrow> real \<Rightarrow> real \<Rightarrow> bool" where
  "hasLeft ls targetX targetY =
     list_ex (\<lambda>l. layer_type l = Base \<and> \<bar>pos_x l - (targetX - CANVAS_WIDTH)\<bar> < EPSILON
                  \<and> \<bar>pos_y l - targetY\<bar> < EPSILON) ls"

definition hasRight :: "MapLayer list \<Rightarrow> real \<Rightarrow> real \<Rightarrow> bool" where
  "hasRight ls targetX targetY =
     list_ex (\<lambda>l. layer_type l = Base \<and> \<bar>pos_x l - (targetX + CANVAS_WIDTH)\<bar> < EPSILON
                  \<and> \<bar>pos_y l - targetY\<bar> < EPSILON) ls"

definition hasTop :: "MapLayer list \<Rightarrow> real \<Rightarrow> real \<Rightarrow> bool" where
  "hasTop ls targetX targetY =
     list_ex (\<lambda>l. layer_type l = Base \<and> \<bar>pos_x l - targetX\<bar> < EPSILON
                  \<and> \<bar>pos_y l - (targetY - CANVAS_HEIGHT)\<bar> < EPSILON) ls"

definition hasBottom :: "MapLayer list \<Rightarrow> real \<Rightarrow> real \<Rightarrow> bool" where
  "hasBottom ls targetX targetY =
     list_ex (\<lambda>l. layer_type l = Base \<and> \<bar>pos_x l - targetX\<bar> < EPSILON
                  \<and> \<bar>pos_y l - (targetY + CANVAS_HEIGHT)\<bar> < EPSILON) ls"

text \<open>One neighbour strip: captured when the neighbour exists, left \<^verbatim>\<open>undefined\<close> otherwise.\<close>

definition capture_if :: "bool \<Rightarrow> platform \<Rightarrow> Rect \<Rightarrow> MapLayer list \<Rightarrow> string option traced" where
  "capture_if present P rect ls =
     (if present then awaitT (map_promise Some (getCompositeRect P rect ls))
      else awaitT (Resolved None))"

definition navigate_neighbors :: "platform \<Rightarrow> MapLayer list \<Rightarrow> real \<Rightarrow> real \<Rightarrow> neighbors traced" where
  "navigate_neighbors P ls targetX targetY =
     bindT (capture_if (hasLeft ls targetX targetY) P
              \<lparr>pos_x = targetX - STRIP_SIZE, pos_y = targetY, width = STRIP_SIZE, height = CANVAS_HEIGHT\<rparr> ls)
       (\<lambda>l. bindT (capture_if (hasRight ls targetX targetY) P
              \<lparr>pos_x = targetX + CANVAS_WIDTH, pos_y = targetY, width = STRIP_SIZE, height = CANVAS_HEIGHT\<rparr> ls)
       (\<lambda>r. bindT (capture_if (hasTop ls targetX targetY) P
              \<lparr>pos_x = targetX, pos_y = targetY - STRIP_SIZE, width = CANVAS_WIDTH, height = STRIP_SIZE\<rparr> ls)
       (\<lambda>t. bindT (capture_if (hasBottom ls targetX targetY) P
              \<lparr>pos_x = targetX, pos_y = targetY + CANVAS_HEIGHT, width = CANVAS_WIDTH, height = STRIP_SIZE\<rparr> ls)
       (\<lambda>b. ([], Resolved \<lparr>nb_left = l, nb_right = r, nb_top = t, nb_bottom = b\<rparr>)))))"

definition navigate_layer :: "int \<Rightarrow> int \<Rightarrow> string \<Rightarrow> MapLayer" where
  "navigate_layer nextGridX nextGridY newBaseImage =
     \<lparr>pos_x = real_of_int nextGridX * CANVAS_WIDTH, pos_y = real_of_int nextGridY * CANVAS_HEIGHT,
      width = CANVAS_WIDTH, height = CANVAS_HEIGHT,
      layer_id = ''layer-base-'' @ show_int nextGridX @ ''-'' @ show_int nextGridY,
      name = ''Base ('' @ show_int nextGridX @ '','' @ show_int nextGridY @ '')'',
      layer_type = Base, imageData = newBaseImage, visible = True, zIndex = 0\<rparr>"

text \<open>The end of the handler, from the outcome of its \<^verbatim>\<open>try\<close> block: the new layer is
  committed, or the \<^verbatim>\<open>catch\<close> sets the error; \<^verbatim>\<open>finally\<close> ends both. When an awaited promise
  never settles, neither runs.\<close>

definition navigate_conclude :: "AppState \<Rightarrow> int \<Rightarrow> int \<Rightarrow> string traced \<Rightarrow> AppState \<Rightarrow> AppState" where
  "navigate_conclude c nextGridX nextGridY outcome t =
     (let t1 = set_debug_logs (fst outcome) t in
      case snd outcome of
        Resolved newBaseImage \<Rightarrow>
          (addToHistory c (layers c @ [navigate_layer nextGridX nextGridY newBaseImage]) t1)
            \<lparr>isGenerating := False\<rparr>
      | Rejected e \<Rightarrow>
          t1\<lparr>error := Some (''Failed to generate neighbor: ''
                 @ (case err_message e of None \<Rightarrow> ''undefined'' | Some m \<Rightarrow> m)),
             isGenerating := False\<rparr>
      | Pending \<Rightarrow> t1)"

definition handleNavigate :: "platform \<Rightarrow> direction \<Rightarrow> AppState \<Rightarrow> AppState" where
  "handleNavigate P dir s =
     (let currentGridX = Math_round (viewX s / CANVAS_WIDTH);
          currentGridY = Math_round (viewY s / CANVAS_HEIGHT);
          nextGridY = (if dir = Dir_top then currentGridY - 1
                       else if dir = Dir_bottom then currentGridY + 1 else currentGridY);
          nextGridX = (if dir = Dir_left then currentGridX - 1
                       else if dir = Dir_right then currentGridX + 1 else currentGridX);
          targetX = real_of_int nextGridX * CANVAS_WIDTH;
          targetY = real_of_int nextGridY * CANVAS_HEIGHT;
          s1 = s\<lparr>viewState := (targetX, targetY)\<rparr>;
          exists = list_ex (\<lambda>l. layer_type l = Base \<and> \<bar>pos_x l - targetX\<bar> < 50
                               \<and> \<bar>pos_y l - targetY\<bar> < 50) (layers s)
      in if exists then s1
         else navigate_conclude s nextGridX nextGridY
                (bindT (navigate_neighbors P (layers s) targetX targetY)
                   (\<lambda>n. generateSeamlessTexture P n (mapSettings s) (lastBasePrompt s)))
                (s1\<lparr>isGenerating := True\<rparr>))"

subsection \<open>handleGenerateAsset\<close>

text \<open>What the \<^verbatim>\<open>try\<close> block has computed when it reaches \<^verbatim>\<open>newLayer\<close>: the image, the
  target rectangle, and whether the brush mask was cleared on the way.\<close>

type_synonym asset_target = "string \<times> real \<times> real \<times> real \<times> real \<times> bool"

definition asset_brush :: "platform \<Rightarrow> AppState \<Rightarrow> string \<Rightarrow> asset_target traced" where
  "asset_brush P s maskSrc =
     bindT (awaitT (getContentBounds P maskSrc 1024 1024))
       (\<lambda>bounds_opt. case bounds_opt of
          None \<Rightarrow> ([], Rejected (Error ''Paint something first!''))
        | Some bounds \<Rightarrow>
            bindT (awaitT (getCompositeRect P
                     \<lparr>pos_x = viewX s, pos_y = viewY s, width = CANVAS_WIDTH, height = CANVAS_HEIGHT\<rparr>
                     (layers s)))
              (\<lambda>viewportImage. bindT (awaitT (overlayImage P viewportImage maskSrc))
              (\<lambda>guidanceImage.
                 let size = max (width bounds) (height bounds);
                     padding = 20;
                     cropSize = size + padding * 2;
                     cx = pos_x bounds + width bounds / 2;
                     cy = pos_y bounds + height bounds / 2;
                     cropX = cx - cropSize / 2;
                     cropY = cy - cropSize / 2
                 in bindT (awaitT (cropAndResize P guidanceImage cropX cropY cropSize cropSize 512 512))
                   (\<lambda>guidanceCrop. bindT (awaitT (cropAndResize P viewportImage cropX cropY cropSize cropSize 512 512))
                   (\<lambda>cleanCrop. bindT (generateMapAsset P (prompt s) (mapSettings s) (Some guidanceCrop))
                   (\<lambda>rawGeneratedImage. bindT (awaitT (createDifferenceLayer P cleanCrop rawGeneratedImage))
                   (\<lambda>finalImageData.
                      ([], Resolved (finalImageData, viewX s + cropX, viewY s + cropY,
                                     cropSize, cropSize, True)))))))))"

definition asset_selection :: "platform \<Rightarrow> AppState \<Rightarrow> Rect \<Rightarrow> asset_target traced" where
  "asset_selection P s sel =
     (let size = max (width sel) (height sel);
          centerX = pos_x sel + width sel / 2;
          centerY = pos_y sel + height sel / 2;
          contextRect = \<lparr>pos_x = centerX - size / 2, pos_y = centerY - size / 2,
                         width = size, height = size\<rparr>
      in bindT (awaitT (getCompositeRect P contextRect (layers s)))
           (\<lambda>contextCrop. bindT (awaitT (cropAndResize P contextCrop 0 0 size size 512 512))
           (\<lambda>contextResized. bindT (generateMapAsset P (prompt s) (mapSettings s) (Some contextResized))
           (\<lambda>rawGeneratedImage. bindT (awaitT (createDifferenceLayer P contextResized rawGeneratedImage))
           (\<lambda>finalImageData.
              ([], Resolved (finalImageData, pos_x contextRect, pos_y contextRect, size, size, False)))))))"

definition asset_isolated :: "platform \<Rightarrow> AppState \<Rightarrow> asset_target traced" where
  "asset_isolated P s =
     bindT (generateMapAsset P (prompt s) (mapSettings s) None)
       (\<lambda>rawImageData. bindT (awaitT (removeMagentaBackground P rawImageData))
       (\<lambda>finalImageData.
          ([], Resolved (finalImageData, viewX s + CANVAS_WIDTH / 2 - 128,
                         viewY s + CANVAS_HEIGHT / 2 - 128, 256, 256, False))))"

definition asset_try :: "platform \<Rightarrow> AppState \<Rightarrow> asset_target traced" where
  "asset_try P s =
     (if truthy (brushMask s) \<and> activeTool s = Brush then asset_brush P s (the (brushMask s))
      else case selection s of
             Some sel \<Rightarrow> asset_selection P s sel
           | None \<Rightarrow> asset_isolated P s)"

definition asset_layer :: "platform \<Rightarrow> AppState \<Rightarrow> asset_target \<Rightarrow> MapLayer" where
  "asset_layer P c tgt =
     (case tgt of (finalImageData, targetX, targetY, targetW, targetH, cleared) \<Rightarrow>
        \<lparr>pos_x = targetX, pos_y = targetY, width = targetW, height = targetH,
         layer_id = ''layer-'' @ show_nat (Date_now P), name = prompt c, layer_type = Object,
         imageData = finalImageData, visible = True, zIndex = int (length (layers c)) + 10\<rparr>)"

definition asset_conclude :: "platform \<Rightarrow> AppState \<Rightarrow> asset_target traced \<Rightarrow> AppState \<Rightarrow> AppState" where
  "asset_conclude P c outcome t =
     (let t1 = set_debug_logs (fst outcome) t in
      case snd outcome of
        Resolved tgt \<Rightarrow>
          (addToHistory c (layers c @ [asset_layer P c tgt])
             (if snd (snd (snd (snd (snd tgt)))) then t1\<lparr>brushMask := None\<rparr> else t1))
            \<lparr>selection := None, prompt := [], activeTool := Pointer, isGenerating := False\<rparr>
      | Rejected e \<Rightarrow>
          t1\<lparr>error := Some (message_or e ''Failed to generate image''), isGenerating := False\<rparr>
      | Pending \<Rightarrow> t1)"

definition handleGenerateAsset :: "platform \<Rightarrow> AppState \<Rightarrow> AppState" where
  "handleGenerateAsset P s =
     (if trim_empty (prompt s) then s
      else asset_conclude P s (asset_try P s) (s\<lparr>isGenerating := True, error := None\<rparr>))"

subsection \<open>handleGenerateBase\<close>

definition base_layer :: "platform \<Rightarrow> AppState \<Rightarrow> string \<Rightarrow> MapLayer" where
  "base_layer P c imgData =
     (let snapX = Math_round (viewX c / CANVAS_WIDTH) * 1024;
          snapY = Math_round (viewY c / CANVAS_HEIGHT) * 1024
      in \<lparr>pos_x = real_of_int snapX, pos_y = real_of_int snapY,
          width = CANVAS_WIDTH, height = CANVAS_HEIGHT,
          layer_id = ''layer-base-'' @ show_int snapX @ ''-'' @ show_int snapY @ ''-''
                       @ show_nat (Date_now P),
          name = ''Base: '' @ basePrompt c, layer_type = Base, imageData = imgData,
          visible = True, zIndex = 0\<rparr>)"

definition base_prevLayers :: "AppState \<Rightarrow> MapLayer list" where
  "base_prevLayers c =
     (let snapX = real_of_int (Math_round (viewX c / CANVAS_WIDTH) * 1024);
          snapY = real_of_int (Math_round (viewY c / CANVAS_HEIGHT) * 1024)
      in filter (\<lambda>l. \<not> (layer_type l = Base \<and> \<bar>pos_x l - snapX\<bar> < 10 \<and> \<bar>pos_y l - snapY\<bar> < 10))
           (layers c))"

definition base_conclude :: "platform \<Rightarrow> AppState \<Rightarrow> string traced \<Rightarrow> AppState \<Rightarrow> AppState" where
  "base_conclude P c outcome t =
     (let t1 = set_debug_logs (fst outcome) t in
      case snd outcome of
        Resolved imgData \<Rightarrow>
          (addToHistory c (base_layer P c imgData # base_prevLayers c) t1)
            \<lparr>basePrompt := [], isGenerating := False\<rparr>
      | Rejected e \<Rightarrow>
          t1\<lparr>error := Some (message_or e ''Failed to generate base''), isGenerating := False\<rparr>
      | Pending \<Rightarrow> t1)"

definition handleGenerateBase :: "platform \<Rightarrow> AppState \<Rightarrow> AppState" where
  "handleGenerateBase P s =
     (if trim_empty (basePrompt s) then s
      else base_conclude P s (generateBaseTexture P (basePrompt s) (mapSettings s))
             (s\<lparr>isBaseModalOpen := False, isGenerating := True, error := None,
                lastBasePrompt := basePrompt s\<rparr>))"

subsection \<open>Layer edits\<close>

definition handleDeleteLayer :: "string \<Rightarrow> AppState \<Rightarrow> AppState" where
  "handleDeleteLayer i s =
     (addToHistory s (filter (\<lambda>l. layer_id l \<noteq> i) (layers s)) s)
       \<lparr>selectedLayerId := (if selectedLayerId s = Some i then None else selectedLayerId s)\<rparr>"

definition handleToggleVisibility :: "string \<Rightarrow> AppState \<Rightarrow> AppState" where
  "handleToggleVisibility i s =
     addToHistory s (map (\<lambda>l. if layer_id l = i then l\<lparr>visible := \<not> visible l\<rparr> else l) (layers s)) s"

definition updateLayerPosition :: "string \<Rightarrow> real \<Rightarrow> real \<Rightarrow> AppState \<Rightarrow> AppState" where
  "updateLayerPosition i px py s =
     s\<lparr>layers := map (\<lambda>l. if layer_id l = i then l\<lparr>pos_x := px, pos_y := py\<rparr> else l) (layers s)\<rparr>"

definition handleMoveEnd :: "AppState \<Rightarrow> AppState" where
  "handleMoveEnd s = addToHistory s (layers s) s"

text \<open>\<^verbatim>\<open>updateLayerData(id, updates)\<close> is called from one place, the end of an erase stroke in
  \<^verbatim>\<open>MapCanvas\<close>, with \<^verbatim>\<open>{ imageData: newData }\<close>.\<close>

definition updateLayerData_imageData :: "string \<Rightarrow> string \<Rightarrow> AppState \<Rightarrow> AppState" where
  "updateLayerData_imageData i newData s =
     addToHistory s (map (\<lambda>l. if layer_id l = i then l\<lparr>imageData := newData\<rparr> else l) (layers s)) s"

subsection \<open>Reachable states\<close>

text \<open>
  The states the application can be in: the initial state, and from a reachable state the
  state after any handler, with any browser and model behind it. The last rule is every
  other change of the interface (tool, selection, brush mask, prompts, view, settings,
  dialogs), none of which sets the layers or the history.
\<close>

inductive reachable :: "AppState \<Rightarrow> bool" where
  r_init: "reachable initial_state"
| r_bootstrap: "reachable s \<Longrightarrow> reachable (bootstrap P s)"
| r_navigate: "reachable s \<Longrightarrow> reachable (handleNavigate P dir s)"
| r_asset: "reachable s \<Longrightarrow> reachable (handleGenerateAsset P s)"
| r_base: "reachable s \<Longrightarrow> reachable (handleGenerateBase P s)"
| r_delete: "reachable s \<Longrightarrow> reachable (handleDeleteLayer i s)"
| r_toggle: "reachable s \<Longrightarrow> reachable (handleToggleVisibility i s)"
| r_move: "reachable s \<Longrightarrow> reachable (updateLayerPosition i px py s)"
| r_move_end: "reachable s \<Longrightarrow> reachable (handleMoveEnd s)"
| r_erase: "reachable s \<Longrightarrow> reachable (updateLayerData_imageData i newData s)"
| r_undo: "reachable s \<Longrightarrow> handleUndo s = Some s' \<Longrightarrow> reachable s'"
| r_redo: "reachable s \<Longrightarrow> handleRedo s = Some s' \<Longrightarrow> reachable s'"
| r_interface:
    "reachable s \<Longrightarrow> layers s' = layers s \<Longrightarrow> history s' = history s
     \<Longrightarrow> historyIndex s' = historyIndex s \<Longrightarrow> reachable s'"

subsection \<open>Predicates used in the properties\<close>

text \<open>The z-order of a layer fits its type: 0 for a base layer, at least 10 for an object
  layer; of every layer of a scene; of the current scene and every scene of the history.\<close>

definition zIndex_ok :: "MapLayer \<Rightarrow> bool" where
  "zIndex_ok l = (layer_type l = Base \<and> zIndex l = 0 \<or> layer_type l = Object \<and> 10 \<le> zIndex l)"

definition scene_ok :: "MapLayer list \<Rightarrow> bool" where
  "scene_ok ls = list_all zIndex_ok ls"

definition state_ok :: "AppState \<Rightarrow> bool" where
  "state_ok s = (scene_ok (layers s) \<and> list_all scene_ok (history s))"

text \<open>The cursor of the history is on an entry; and the history has not started or its
  cursor is on an entry.\<close>

definition cursor_on_entry :: "AppState \<Rightarrow> bool" where
  "cursor_on_entry s = (0 \<le> historyIndex s \<and> historyIndex s < int (length (history s)))"

definition history_started :: "AppState \<Rightarrow> bool" where
  "history_started s = (history s = [] \<and> historyIndex s = - 1 \<or> cursor_on_entry s)"




text \<open>For examples: a browser with an API key and a model that always answers \<open>r\<close>; and the
  state after the first render, with a prompt typed in.\<close>

definition example_model :: "response promise \<Rightarrow> platform" where
  "example_model r = (example_browser [])\<lparr>API_KEY := Some ''key'', generateContent := (\<lambda>_. r)\<rparr>"

definition example_state :: "platform \<Rightarrow> AppState" where
  "example_state P = (bootstrap P initial_state)\<lparr>prompt := ''tree''\<rparr>"

text \<open>Which drawing call painted last over a point of a canvas: the point is inside the
  call's destination rectangle (for an image drawn at its natural size, \<open>sz\<close> gives that size).
  Where the source of that call is opaque, it alone decides the pixel.\<close>

definition in_rect :: "real \<Rightarrow> real \<Rightarrow> real \<Rightarrow> real \<Rightarrow> real \<times> real \<Rightarrow> bool" where
  "in_rect rx ry rw rh p = (rx \<le> fst p \<and> fst p < rx + rw \<and> ry \<le> snd p \<and> snd p < ry + rh)"

fun op_covers :: "(string \<Rightarrow> (nat \<times> nat) option) \<Rightarrow> paint_op \<Rightarrow> real \<times> real \<Rightarrow> bool" where
  "op_covers sz (FillRect c rx ry rw rh) p = in_rect rx ry rw rh p"
| "op_covers sz (DrawImage src dx dy) p =
     (case sz src of None \<Rightarrow> False | Some (w, h) \<Rightarrow> in_rect dx dy (real w) (real h) p)"
| "op_covers sz (DrawImageScaled src dx dy dw dh) p = in_rect dx dy dw dh p"
| "op_covers sz (DrawImageCrop src sx sy sw sh dx dy dw dh) p = in_rect dx dy dw dh p"
| "op_covers sz (PutImageData d) p = True"

definition last_painter ::
  "(string \<Rightarrow> (nat \<times> nat) option) \<Rightarrow> paint_op list \<Rightarrow> real \<times> real \<Rightarrow> paint_op option" where
  "last_painter sz ops p = List.find (\<lambda>op. op_covers sz op p) (rev ops)"

text \<open>For examples: neighbours on the left and on the right; a neighbour on the left only;
  two overlapping visible layers, a ground tile and a tree on it, and the rectangle of the
  tile; and a browser in which the second image of a batch loads before the first.\<close>

definition example_neighbors :: neighbors where
  "example_neighbors = \<lparr>nb_left = Some ''left'', nb_right = Some ''right'', nb_top = None, nb_bottom = None\<rparr>"

definition left_only :: neighbors where
  "left_only = \<lparr>nb_left = Some ''strip'', nb_right = None, nb_top = None, nb_bottom = None\<rparr>"

definition example_ground :: MapLayer where
  "example_ground = \<lparr>pos_x = 0, pos_y = 0, width = 1024, height = 1024, layer_id = ''layer-base-0-0'',
     name = ''Base Start'', layer_type = Base, imageData = ''ground.png'', visible = True, zIndex = 0\<rparr>"

definition example_tree :: MapLayer where
  "example_tree = \<lparr>pos_x = 100, pos_y = 100, width = 256, height = 256, layer_id = ''layer-1'',
     name = ''tree'', layer_type = Object, imageData = ''tree.png'', visible = True, zIndex = 11\<rparr>"

definition example_viewport :: Rect where
  "example_viewport = \<lparr>pos_x = 0, pos_y = 0, width = 1024, height = 1024\<rparr>"

definition second_loads_first :: platform where
  "second_loads_first = (example_browser [])\<lparr>loadEvents := (\<lambda>_. [(1, True), (0, True)])\<rparr>"

text \<open>For examples: a rectangle selected on the canvas; a browser whose model answers with an
  image, whose encoder gives \<open>''checker.png''\<close> for the 64 by 64 canvas of the first render and
  \<open>''asset.png''\<close> for every other canvas, and in which the images of a batch load last
  first; and the state after the first render in that browser, with the rectangle selected
  and a prompt typed in.\<close>

definition example_selection :: Rect where
  "example_selection = \<lparr>pos_x = 100, pos_y = 100, width = 256, height = 256\<rparr>"

definition loads_last_first :: platform where
  "loads_last_first =
     (example_model (Resolved (Some [Some (''image/png'', ''AAAA'')])))
       \<lparr>toDataURL := (\<lambda>cv. if cv_width cv = 64 then ''checker.png'' else ''asset.png''),
        loadEvents := (\<lambda>srcs. rev (map (\<lambda>k. (k, True)) [0..<length srcs]))\<rparr>"

definition selected_state :: AppState where
  "selected_state = (example_state loads_last_first)\<lparr>selection := Some example_selection\<rparr>"

section \<open>Properties of the image utilities\<close>

subsection \<open>Chroma-key removal\<close>

lemma length_magenta_loop: "length (magenta_loop i d) = length d"
  by (induction i d rule: magenta_loop.induct)
     (subst magenta_loop.simps, simp add: length_magenta_step)

lemma rd_update_other: "p \<noteq> q \<Longrightarrow> rd (d[p := v]) q = rd d q"
  by (simp add: rd_def)

lemma magenta_dist_update_below: "p < i \<Longrightarrow> magenta_dist (d[p := v]) i = magenta_dist d i"
  by (simp add: magenta_dist_def rd_update_other)

text \<open>What the loop started at \<open>i\<close> leaves at index \<open>j\<close>: only the alpha bytes at
  \<open>i + 3\<close>, \<open>i + 7\<close>, ... can change, and each is decided by the three colour bytes before it.\<close>

lemma magenta_loop_nth:
  "j < length d \<Longrightarrow>
   magenta_loop i d ! j =
     (if i + 3 \<le> j \<and> (j - (i + 3)) mod 4 = 0 \<and> less_num (magenta_dist d (j - 3)) 100
      then 0 else d ! j)"
proof (induction i d rule: magenta_loop.induct)
  case (1 i d)
  show ?case
  proof (cases "i < length d")
    case False
    with "1.prems" show ?thesis by (subst magenta_loop.simps) simp
  next
    case True
    let ?d' = "magenta_step i d"
    have len: "j < length ?d'" using "1.prems" by (simp add: length_magenta_step)
    have ih: "magenta_loop (i + 4) ?d' ! j =
      (if i + 4 + 3 \<le> j \<and> (j - (i + 4 + 3)) mod 4 = 0 \<and> less_num (magenta_dist ?d' (j - 3)) 100
       then 0 else ?d' ! j)"
      using "1.IH"[OF True len] .
    have dist: "i + 7 \<le> j \<Longrightarrow> magenta_dist ?d' (j - 3) = magenta_dist d (j - 3)"
      by (simp add: magenta_step_def magenta_dist_update_below)
    have here: "?d' ! j = (if j = i + 3 \<and> less_num (magenta_dist d i) 100 then 0 else d ! j)"
      using "1.prems" by (simp add: magenta_step_def nth_list_update)
    have unfold: "magenta_loop i d = magenta_loop (i + 4) ?d'"
      using True by (subst magenta_loop.simps) simp
    show ?thesis
    proof (cases "i + 7 \<le> j")
      case far: True
      then have "j - (i + 3) = (j - (i + 7)) + 4" by simp
      then have m: "(j - (i + 3)) mod 4 = (j - (i + 7)) mod 4"
        by (simp only: mod_add_self2)
      have ne: "j \<noteq> i + 3" "i + 3 \<le> j" using far by simp_all
      show ?thesis
        unfolding unfold ih here using far ne dist[OF far] m by (simp add: add.assoc)
    next
      case near: False
      then have nf: "\<not> (i + 4 + 3 \<le> j)" by simp
      show ?thesis
      proof (cases "j = i + 3")
        case True
        then show ?thesis unfolding unfold ih here using nf by simp
      next
        case False
        have "(j - (i + 3)) mod 4 \<noteq> 0" if "i + 3 \<le> j"
        proof -
          from that near False have "0 < j - (i + 3)" "j - (i + 3) < 4" by simp_all
          then show ?thesis by simp
        qed
        then have cond: "\<not> (i + 3 \<le> j \<and> (j - (i + 3)) mod 4 = 0 \<and> less_num (magenta_dist d (j - 3)) 100)"
          by auto
        have l: "magenta_loop (i + 4) ?d' ! j = d ! j"
          using ih here nf False by simp
        show ?thesis unfolding unfold l using cond by (simp only: if_False)
      qed
    qed
  qed
qed

text \<open>
  Claim C8. Chroma-key removal, the pixel loop of \<^verbatim>\<open>removeMagentaBackground\<close> with key
  (255, 0, 255) and threshold 100, is idempotent: on every RGBA buffer, running it twice
  gives the buffer that running it once gives.
\<close>

theorem removeMagenta_idempotent:
  "magenta_loop 0 (magenta_loop 0 d) = magenta_loop 0 d"
proof (rule nth_equalityI)
  show "length (magenta_loop 0 (magenta_loop 0 d)) = length (magenta_loop 0 d)"
    by (simp add: length_magenta_loop)
next
  fix j assume "j < length (magenta_loop 0 (magenta_loop 0 d))"
  then have j: "j < length d" by (simp add: length_magenta_loop)
  let ?e = "magenta_loop 0 d"
  have je: "j < length ?e" using j by (simp add: length_magenta_loop)
  show "magenta_loop 0 ?e ! j = ?e ! j"
  proof (cases "3 \<le> j \<and> (j - 3) mod 4 = 0 \<and> less_num (magenta_dist ?e (j - 3)) 100")
    case False
    then show ?thesis using magenta_loop_nth[OF je, of 0] by auto
  next
    case True
    then have c: "3 \<le> j" "(j - 3) mod 4 = 0" by simp_all
    have rgb: "rd ?e k = rd d k" if "k = j - 3 \<or> k = j - 3 + 1 \<or> k = j - 3 + 2" for k
    proof (cases "k < length d")
      case False
      then show ?thesis by (simp add: rd_def length_magenta_loop)
    next
      case kl: True
      have "(k - 3) mod 4 \<noteq> 0" if "3 \<le> k"
        using that c \<open>k = j - 3 \<or> k = j - 3 + 1 \<or> k = j - 3 + 2\<close> by presburger
      then have "magenta_loop 0 d ! k = d ! k"
        using magenta_loop_nth[OF kl, of 0] by auto
      then show ?thesis using kl by (simp add: rd_def length_magenta_loop)
    qed
    have "magenta_dist ?e (j - 3) = magenta_dist d (j - 3)"
    proof -
      have "rd ?e (j - 3) = rd d (j - 3)" "rd ?e (j - 3 + 1) = rd d (j - 3 + 1)"
        "rd ?e (j - 3 + 2) = rd d (j - 3 + 2)"
        by (rule rgb, simp)+
      then show ?thesis unfolding magenta_dist_def by (simp only:)
    qed
    with True have "less_num (magenta_dist d (j - 3)) 100" by simp
    with c have "?e ! j = 0" using magenta_loop_nth[OF j, of 0] by simp
    moreover have "magenta_loop 0 ?e ! j = 0" using magenta_loop_nth[OF je, of 0] True by simp
    ultimately show ?thesis by simp
  qed
qed

subsection \<open>Difference extraction\<close>

lemma length_diff_loop: "length (diff_loop orig i gen) = length gen"
  by (induction orig i gen rule: diff_loop.induct)
     (subst diff_loop.simps, simp add: length_diff_step)

lemma diff_dist_update_below: "p < i \<Longrightarrow> diff_dist orig (gen[p := v]) i = diff_dist orig gen i"
  by (simp add: diff_dist_def rd_update_other)

lemma diff_loop_nth:
  "j < length gen \<Longrightarrow>
   diff_loop orig i gen ! j =
     (if i + 3 \<le> j \<and> (j - (i + 3)) mod 4 = 0
      then (if less_num (diff_dist orig gen (j - 3)) 35 then 0 else 255) else gen ! j)"
proof (induction orig i gen rule: diff_loop.induct)
  case (1 orig i gen)
  show ?case
  proof (cases "i < length gen")
    case False
    with "1.prems" show ?thesis by (subst diff_loop.simps) simp
  next
    case True
    let ?g = "diff_step orig i gen"
    have len: "j < length ?g" using "1.prems" by (simp add: length_diff_step)
    have ih: "diff_loop orig (i + 4) ?g ! j =
      (if i + 4 + 3 \<le> j \<and> (j - (i + 4 + 3)) mod 4 = 0
       then (if less_num (diff_dist orig ?g (j - 3)) 35 then 0 else 255) else ?g ! j)"
      using "1.IH"[OF True len] .
    have dist: "i + 7 \<le> j \<Longrightarrow> diff_dist orig ?g (j - 3) = diff_dist orig gen (j - 3)"
      by (simp add: diff_step_def diff_dist_update_below)
    have here: "?g ! j = (if j = i + 3 then (if less_num (diff_dist orig gen i) 35 then 0 else 255) else gen ! j)"
      using "1.prems" by (simp add: diff_step_def nth_list_update)
    have unfold: "diff_loop orig i gen = diff_loop orig (i + 4) ?g"
      using True by (subst diff_loop.simps) simp
    show ?thesis
    proof (cases "i + 7 \<le> j")
      case far: True
      then have "j - (i + 3) = (j - (i + 7)) + 4" by simp
      then have m: "(j - (i + 3)) mod 4 = (j - (i + 7)) mod 4"
        by (simp only: mod_add_self2)
      have ne: "j \<noteq> i + 3" "i + 3 \<le> j" using far by simp_all
      show ?thesis
        unfolding unfold ih here using far ne dist[OF far] m by (simp add: add.assoc)
    next
      case near: False
      then have nf: "\<not> (i + 4 + 3 \<le> j)" by simp
      show ?thesis
      proof (cases "j = i + 3")
        case True
        then show ?thesis unfolding unfold ih here using nf by simp
      next
        case False
        have "(j - (i + 3)) mod 4 \<noteq> 0" if "i + 3 \<le> j"
        proof -
          from that near False have "0 < j - (i + 3)" "j - (i + 3) < 4" by simp_all
          then show ?thesis by simp
        qed
        then have cond: "\<not> (i + 3 \<le> j \<and> (j - (i + 3)) mod 4 = 0)"
          by auto
        have l: "diff_loop orig (i + 4) ?g ! j = gen ! j"
          using ih here nf False by simp
        show ?thesis unfolding unfold l using cond by (simp only: if_False)
      qed
    qed
  qed
qed

lemma diff_dist_in_range:
  "i + 2 < length orig \<Longrightarrow> i + 2 < length gen \<Longrightarrow>
   diff_dist orig gen i =
     Some (\<bar>uint (orig ! i) - uint (gen ! i)\<bar> + \<bar>uint (orig ! (i + 1)) - uint (gen ! (i + 1))\<bar>
           + \<bar>uint (orig ! (i + 2)) - uint (gen ! (i + 2))\<bar>)"
  by (simp add: diff_dist_def rd_def abs_diff_def plus_num_def)

lemma diff_loop_keeps:
  "j < length gen \<Longrightarrow> \<not> (i + 3 \<le> j \<and> (j - (i + 3)) mod 4 = 0) \<Longrightarrow> diff_loop orig i gen ! j = gen ! j"
  by (simp only: diff_loop_nth if_False)

lemma diff_loop_alpha:
  "j < length gen \<Longrightarrow> i + 3 \<le> j \<and> (j - (i + 3)) mod 4 = 0 \<Longrightarrow>
   diff_loop orig i gen ! j = (if less_num (diff_dist orig gen (j - 3)) 35 then 0 else 255)"
  by (simp add: diff_loop_nth)

lemma diff_pixel:
  assumes "length dataOrig = length dataGen" and "4 * p + 3 < length dataGen"
  shows "diff_loop dataOrig 0 dataGen ! (4 * p) = dataGen ! (4 * p)
       \<and> diff_loop dataOrig 0 dataGen ! (4 * p + 1) = dataGen ! (4 * p + 1)
       \<and> diff_loop dataOrig 0 dataGen ! (4 * p + 2) = dataGen ! (4 * p + 2)
       \<and> diff_loop dataOrig 0 dataGen ! (4 * p + 3) =
           (if \<bar>uint (dataOrig ! (4 * p)) - uint (dataGen ! (4 * p))\<bar>
               + \<bar>uint (dataOrig ! (4 * p + 1)) - uint (dataGen ! (4 * p + 1))\<bar>
               + \<bar>uint (dataOrig ! (4 * p + 2)) - uint (dataGen ! (4 * p + 2))\<bar> < 35
            then 0 else 255)"
proof -
  have m0: "\<not> (0 + 3 \<le> 4 * p \<and> (4 * p - (0 + 3)) mod 4 = 0)" by presburger
  have m1: "\<not> (0 + 3 \<le> 4 * p + 1 \<and> (4 * p + 1 - (0 + 3)) mod 4 = 0)" by presburger
  have m2: "\<not> (0 + 3 \<le> 4 * p + 2 \<and> (4 * p + 2 - (0 + 3)) mod 4 = 0)" by presburger
  have m3: "0 + 3 \<le> 4 * p + 3 \<and> (4 * p + 3 - (0 + 3)) mod 4 = 0" by simp
  have l: "4 * p < length dataGen" "4 * p + 1 < length dataGen" "4 * p + 2 < length dataGen"
    using assms(2) by simp_all
  have d: "diff_dist dataOrig dataGen (4 * p) = Some (\<bar>uint (dataOrig ! (4 * p)) - uint (dataGen ! (4 * p))\<bar>
               + \<bar>uint (dataOrig ! (4 * p + 1)) - uint (dataGen ! (4 * p + 1))\<bar>
               + \<bar>uint (dataOrig ! (4 * p + 2)) - uint (dataGen ! (4 * p + 2))\<bar>)"
    using assms by (intro diff_dist_in_range) simp_all
  have a0: "diff_loop dataOrig 0 dataGen ! (4 * p) = dataGen ! (4 * p)"
    by (rule diff_loop_keeps[OF l(1) m0])
  have a1: "diff_loop dataOrig 0 dataGen ! (4 * p + 1) = dataGen ! (4 * p + 1)"
    by (rule diff_loop_keeps[OF l(2) m1])
  have a2: "diff_loop dataOrig 0 dataGen ! (4 * p + 2) = dataGen ! (4 * p + 2)"
    by (rule diff_loop_keeps[OF l(3) m2])
  have a3: "diff_loop dataOrig 0 dataGen ! (4 * p + 3) =
     (if less_num (diff_dist dataOrig dataGen (4 * p)) 35 then 0 else 255)"
    using diff_loop_alpha[OF assms(2) m3] by simp
  show ?thesis unfolding a0 a1 a2 a3 d by (simp add: less_num_def)
qed

lemma diff_same_transparent:
  assumes "4 * p + 3 < length d"
  shows "diff_loop d 0 d ! (4 * p + 3) = 0"
  using diff_pixel[OF refl assms] by simp

subsection \<open>Content bounds\<close>

lemma scan_rows_as_list:
  "fold (\<lambda>py. fold (scan_pixel canvasW d py) xs) ys s =
   fold (scan_at canvasW d) (concat (map (\<lambda>py. map (\<lambda>px. (px, py)) xs) ys)) s"
proof (induction ys arbitrary: s)
  case Nil
  show ?case by simp
next
  case (Cons y ys)
  have "fold (scan_at canvasW d) (map (\<lambda>px. (px, y)) xs) s = fold (scan_pixel canvasW d y) xs s"
    by (simp add: fold_map scan_at_def comp_def)
  then show ?case using Cons.IH by simp
qed

lemma Min_insert_min:
  "finite A \<Longrightarrow> Min (insert (min a b) A) = Min (insert b (insert a A))" for a b :: nat
  by (cases "A = {}") (auto simp: min.assoc min.commute min.left_commute)

lemma Max_insert_max:
  "finite A \<Longrightarrow> Max (insert (max a b) A) = Max (insert b (insert a A))" for a b :: nat
  by (cases "A = {}") (auto simp: max.assoc max.commute max.left_commute)

lemma scan_at_lit:
  "lit canvasW d p \<Longrightarrow> scan_at canvasW d p s =
     \<lparr>minX = min (fst p) (minX s), minY = min (snd p) (minY s),
      maxX = max (fst p) (maxX s), maxY = max (snd p) (maxY s), found = True\<rparr>"
  by (auto simp: scan_at_def scan_pixel_def lit_def Let_def min_def max_def)

lemma scan_at_dark: "\<not> lit canvasW d p \<Longrightarrow> scan_at canvasW d p s = s"
  by (simp add: scan_at_def scan_pixel_def lit_def Let_def)

lemma fold_scan_at:
  "minX (fold (scan_at canvasW d) ps s) = Min (insert (minX s) (fst ` {p \<in> set ps. lit canvasW d p}))
 \<and> minY (fold (scan_at canvasW d) ps s) = Min (insert (minY s) (snd ` {p \<in> set ps. lit canvasW d p}))
 \<and> maxX (fold (scan_at canvasW d) ps s) = Max (insert (maxX s) (fst ` {p \<in> set ps. lit canvasW d p}))
 \<and> maxY (fold (scan_at canvasW d) ps s) = Max (insert (maxY s) (snd ` {p \<in> set ps. lit canvasW d p}))
 \<and> found (fold (scan_at canvasW d) ps s) = (found s \<or> {p \<in> set ps. lit canvasW d p} \<noteq> {})"
proof (induction ps arbitrary: s)
  case Nil
  show ?case by simp
next
  case (Cons p ps)
  let ?L = "{q \<in> set ps. lit canvasW d q}"
  have fin: "finite (fst ` ?L)" "finite (snd ` ?L)" by simp_all
  show ?case
  proof (cases "lit canvasW d p")
    case False
    then have "{q \<in> set (p # ps). lit canvasW d q} = ?L" by auto
    then show ?thesis using Cons.IH[of s] False by (simp add: scan_at_dark)
  next
    case True
    then have L: "{q \<in> set (p # ps). lit canvasW d q} = insert p ?L" by auto
    show ?thesis
      unfolding L using Cons.IH[of "scan_at canvasW d p s"] True fin
      by (simp add: scan_at_lit Min_insert_min Max_insert_max)
  qed
qed

lemma set_coords:
  "set (concat (map (\<lambda>py. map (\<lambda>px. (px, py)) [0..<canvasW]) [0..<canvasH])) =
   {p. fst p < canvasW \<and> snd p < canvasH}"
  by auto

lemma lit_in_coords:
  "{p \<in> set (concat (map (\<lambda>py. map (\<lambda>px. (px, py)) [0..<canvasW]) [0..<canvasH])). lit canvasW d p}
   = lit_pixels canvasW canvasH d"
  unfolding set_coords lit_pixels_def by auto

lemma finite_lit_pixels: "finite (lit_pixels canvasW canvasH d)"
proof -
  have "lit_pixels canvasW canvasH d \<subseteq> {..<canvasW} \<times> {..<canvasH}"
    by (auto simp: lit_pixels_def)
  then show ?thesis by (rule finite_subset) simp
qed

lemma scan_pixels_result:
  "minX (scan_pixels canvasW canvasH d) = Min (insert canvasW (fst ` lit_pixels canvasW canvasH d))
 \<and> minY (scan_pixels canvasW canvasH d) = Min (insert canvasH (snd ` lit_pixels canvasW canvasH d))
 \<and> maxX (scan_pixels canvasW canvasH d) = Max (insert 0 (fst ` lit_pixels canvasW canvasH d))
 \<and> maxY (scan_pixels canvasW canvasH d) = Max (insert 0 (snd ` lit_pixels canvasW canvasH d))
 \<and> found (scan_pixels canvasW canvasH d) = (lit_pixels canvasW canvasH d \<noteq> {})"
  unfolding scan_pixels_def scan_rows_as_list
  using fold_scan_at[of canvasW d "concat (map (\<lambda>py. map (\<lambda>px. (px, py)) [0..<canvasW]) [0..<canvasH])"
      "\<lparr>minX = canvasW, minY = canvasH, maxX = 0, maxY = 0, found = False\<rparr>"]
  unfolding lit_in_coords by simp

lemma content_bounds_eq:
  "content_bounds canvasW canvasH d =
     (let S = lit_pixels canvasW canvasH d in
      if S = {} then None
      else Some \<lparr>pos_x = real (Min (fst ` S)), pos_y = real (Min (snd ` S)),
                 width = real (Max (fst ` S)) - real (Min (fst ` S)),
                 height = real (Max (snd ` S)) - real (Min (snd ` S))\<rparr>)"
proof (cases "lit_pixels canvasW canvasH d = {}")
  case True
  then show ?thesis using scan_pixels_result[of canvasW canvasH d]
    by (simp add: content_bounds_def Let_def)
next
  case False
  let ?S = "lit_pixels canvasW canvasH d"
  have fin: "finite (fst ` ?S)" "finite (snd ` ?S)" using finite_lit_pixels by simp_all
  have ne: "fst ` ?S \<noteq> {}" "snd ` ?S \<noteq> {}" using False by simp_all
  have bx: "\<forall>a \<in> fst ` ?S. a < canvasW" and by': "\<forall>b \<in> snd ` ?S. b < canvasH"
    by (auto simp: lit_pixels_def)
  have "Min (fst ` ?S) \<in> fst ` ?S" using fin ne by (intro Min_in)
  then have mx: "Min (fst ` ?S) < canvasW" using bx by blast
  have x1: "Min (insert canvasW (fst ` ?S)) = Min (fst ` ?S)"
    unfolding Min_insert[OF fin(1) ne(1)] using mx by (simp add: min_def)
  have "Min (snd ` ?S) \<in> snd ` ?S" using fin ne by (intro Min_in)
  then have my: "Min (snd ` ?S) < canvasH" using by' by blast
  have y1: "Min (insert canvasH (snd ` ?S)) = Min (snd ` ?S)"
    unfolding Min_insert[OF fin(2) ne(2)] using my by (simp add: min_def)
  have x2: "Max (insert 0 (fst ` ?S)) = Max (fst ` ?S)"
    unfolding Max_insert[OF fin(1) ne(1)] by simp
  have y2: "Max (insert 0 (snd ` ?S)) = Max (snd ` ?S)"
    unfolding Max_insert[OF fin(2) ne(2)] by simp
  show ?thesis using scan_pixels_result[of canvasW canvasH d] False
    by (simp add: content_bounds_def Let_def x1 y1 x2 y2)
qed

subsection \<open>Claims C7 and C10\<close>

text \<open>
  Claim C7. Difference extraction (\<^verbatim>\<open>createDifferenceLayer\<close>) works on a canvas of the
  generated image's size. On two equally long RGBA buffers, for every pixel \<open>p\<close>: the colour
  bytes of the output are those of the generated buffer, and its alpha is 0 when the Manhattan
  distance over R, G, B between original and generated is below 35, and 255 otherwise. On two
  identical buffers every alpha of the output is 0.
\<close>

theorem createDifferenceLayer_extracts:
  "(loadImage P originalBase64 = Some od \<and> loadImage P generatedBase64 = Some (w, h) \<and> context2d P \<longrightarrow>
      createDifferenceLayer P originalBase64 generatedBase64 =
        Resolved (toDataURL P (createDifferenceLayer_canvas P originalBase64 generatedBase64 w h))
      \<and> cv_width (createDifferenceLayer_canvas P originalBase64 generatedBase64 w h) = real w
      \<and> cv_height (createDifferenceLayer_canvas P originalBase64 generatedBase64 w h) = real h
      \<and> cv_ops (createDifferenceLayer_canvas P originalBase64 generatedBase64 w h) =
          [DrawImage generatedBase64 0 0,
           PutImageData (diff_loop
             (getImageData P \<lparr>cv_width = real w, cv_height = real h,
                cv_ops = [DrawImageScaled originalBase64 0 0 (real w) (real h)]\<rparr>) 0
             (getImageData P \<lparr>cv_width = real w, cv_height = real h,
                cv_ops = [DrawImage generatedBase64 0 0]\<rparr>))])
   \<and> length (diff_loop dataOrig 0 dataGen) = length dataGen
   \<and> (length dataOrig = length dataGen \<and> 4 * p + 3 < length dataGen \<longrightarrow>
        diff_loop dataOrig 0 dataGen ! (4 * p) = dataGen ! (4 * p)
      \<and> diff_loop dataOrig 0 dataGen ! (4 * p + 1) = dataGen ! (4 * p + 1)
      \<and> diff_loop dataOrig 0 dataGen ! (4 * p + 2) = dataGen ! (4 * p + 2)
      \<and> diff_loop dataOrig 0 dataGen ! (4 * p + 3) =
           (if \<bar>uint (dataOrig ! (4 * p)) - uint (dataGen ! (4 * p))\<bar>
               + \<bar>uint (dataOrig ! (4 * p + 1)) - uint (dataGen ! (4 * p + 1))\<bar>
               + \<bar>uint (dataOrig ! (4 * p + 2)) - uint (dataGen ! (4 * p + 2))\<bar> < 35
            then 0 else 255))
   \<and> (4 * p + 3 < length dataGen \<longrightarrow> diff_loop dataGen 0 dataGen ! (4 * p + 3) = 0)"
proof (intro conjI impI)
  assume a: "loadImage P originalBase64 = Some od \<and> loadImage P generatedBase64 = Some (w, h) \<and> context2d P"
  then show "createDifferenceLayer P originalBase64 generatedBase64 =
        Resolved (toDataURL P (createDifferenceLayer_canvas P originalBase64 generatedBase64 w h))"
    by (simp add: createDifferenceLayer_def)
  show "cv_width (createDifferenceLayer_canvas P originalBase64 generatedBase64 w h) = real w"
    by (simp add: createDifferenceLayer_canvas_def Let_def)
  show "cv_height (createDifferenceLayer_canvas P originalBase64 generatedBase64 w h) = real h"
    by (simp add: createDifferenceLayer_canvas_def Let_def)
  show "cv_ops (createDifferenceLayer_canvas P originalBase64 generatedBase64 w h) =
          [DrawImage generatedBase64 0 0,
           PutImageData (diff_loop
             (getImageData P \<lparr>cv_width = real w, cv_height = real h,
                cv_ops = [DrawImageScaled originalBase64 0 0 (real w) (real h)]\<rparr>) 0
             (getImageData P \<lparr>cv_width = real w, cv_height = real h,
                cv_ops = [DrawImage generatedBase64 0 0]\<rparr>))]"
    by (simp add: createDifferenceLayer_canvas_def Let_def)
next
  show "length (diff_loop dataOrig 0 dataGen) = length dataGen"
    by (rule length_diff_loop)
next
  assume b: "length dataOrig = length dataGen \<and> 4 * p + 3 < length dataGen"
  note px = diff_pixel[OF conjunct1[OF b] conjunct2[OF b]]
  from px show "diff_loop dataOrig 0 dataGen ! (4 * p) = dataGen ! (4 * p)" by (rule conjunct1)
  from px show "diff_loop dataOrig 0 dataGen ! (4 * p + 1) = dataGen ! (4 * p + 1)" by blast
  from px show "diff_loop dataOrig 0 dataGen ! (4 * p + 2) = dataGen ! (4 * p + 2)" by blast
  from px show "diff_loop dataOrig 0 dataGen ! (4 * p + 3) =
           (if \<bar>uint (dataOrig ! (4 * p)) - uint (dataGen ! (4 * p))\<bar>
               + \<bar>uint (dataOrig ! (4 * p + 1)) - uint (dataGen ! (4 * p + 1))\<bar>
               + \<bar>uint (dataOrig ! (4 * p + 2)) - uint (dataGen ! (4 * p + 2))\<bar> < 35
            then 0 else 255)" by blast
next
  assume "4 * p + 3 < length dataGen"
  then show "diff_loop dataGen 0 dataGen ! (4 * p + 3) = 0" by (rule diff_same_transparent)
qed

theorem createDifferenceLayer_extracts_witness:
  "createDifferenceLayer (example_browser [12, 20, 30, 128, 0, 0, 0, 7]) ''a'' ''b'' =
     Resolved ''url''
   \<and> cv_width (createDifferenceLayer_canvas (example_browser [12, 20, 30, 128, 0, 0, 0, 7]) ''a'' ''b'' 2 2) = 2
   \<and> diff_loop [10, 20, 30, 255, 200, 0, 0, 255] 0 [12, 20, 30, 128, 0, 0, 0, 7] ! 3 = 0
   \<and> diff_loop [10, 20, 30, 255, 200, 0, 0, 255] 0 [12, 20, 30, 128, 0, 0, 0, 7] ! 7 = 255
   \<and> diff_loop [10, 20, 30, 255, 200, 0, 0, 255] 0 [12, 20, 30, 128, 0, 0, 0, 7] ! 4 = 0
   \<and> diff_loop [12, 20, 30, 128, 0, 0, 0, 7] 0 [12, 20, 30, 128, 0, 0, 0, 7] ! 7 = 0"
proof -
  let ?P = "example_browser [12, 20, 30, 128, 0, 0, 0, 7]"
  have h1: "loadImage ?P ''a'' = Some (2, 2) \<and> loadImage ?P ''b'' = Some (2, 2) \<and> context2d ?P"
    by (simp add: example_browser_def)
  have h2: "length [10, 20, 30, 255, 200, 0, 0, 255 :: byte] = length [12, 20, 30, 128, 0, 0, 0, 7 :: byte]
     \<and> 4 * 0 + 3 < length [12, 20, 30, 128, 0, 0, 0, 7 :: byte]" 
    "length [10, 20, 30, 255, 200, 0, 0, 255 :: byte] = length [12, 20, 30, 128, 0, 0, 0, 7 :: byte]
     \<and> 4 * 1 + 3 < length [12, 20, 30, 128, 0, 0, 0, 7 :: byte]" by simp_all
  note t0 = createDifferenceLayer_extracts[of ?P "''a''" "(2, 2)" "''b''" 2 2
      "[10, 20, 30, 255, 200, 0, 0, 255]" "[12, 20, 30, 128, 0, 0, 0, 7]" 0]
  note t1 = createDifferenceLayer_extracts[of ?P "''a''" "(2, 2)" "''b''" 2 2
      "[10, 20, 30, 255, 200, 0, 0, 255]" "[12, 20, 30, 128, 0, 0, 0, 7]" 1]
  show ?thesis using t0 t1 h1 h2 by (simp add: example_browser_def)
qed

lemma one_lit_pixel:
  "lit_pixels 2 2 [0, 0, 0, 0, 9, 9, 9, 9, 0, 0, 0, 0, 0, 0, 0, 0] = {(1, 0)}"
proof -
  let ?d = "[0, 0, 0, 0, 9, 9, 9, 9, 0, 0, 0, 0, 0, 0, 0, 0] :: byte list"
  have L: "lit 2 ?d (a, b) \<longleftrightarrow> a = 1 \<and> b = 0" if "a < 2" "b < 2" for a b
  proof -
    from that have "(a = 0 \<or> a = 1) \<and> (b = 0 \<or> b = 1)" by auto
    then show ?thesis
      by (elim conjE disjE) (simp_all add: lit_def rd_def greater_num_def)
  qed
  show ?thesis
  proof (rule set_eqI)
    fix p :: "nat \<times> nat"
    obtain a b where p: "p = (a, b)" by (cases p)
    show "p \<in> lit_pixels 2 2 ?d \<longleftrightarrow> p \<in> {(1, 0)}"
      unfolding p lit_pixels_def using L[of a b] by auto
  qed
qed

text \<open>
  Claim C10. The scan of \<^verbatim>\<open>getContentBounds\<close> gives \<^verbatim>\<open>null\<close> exactly when no pixel of
  the mask has alpha above 0; otherwise it gives the rectangle with \<open>x\<close> and \<open>y\<close> the least
  coordinates of such pixels and width and height the greatest minus the least coordinate, so
  that a mask with a single such pixel gives width 0 and height 0. When the mask loads and the
  canvas has a context, \<^verbatim>\<open>getContentBounds\<close> resolves with the result of that scan.
\<close>

theorem getContentBounds_rect:
  "(content_bounds canvasW canvasH d = None \<longleftrightarrow> lit_pixels canvasW canvasH d = {})
   \<and> content_bounds canvasW canvasH d =
       (let S = lit_pixels canvasW canvasH d in
        if S = {} then None
        else Some \<lparr>pos_x = real (Min (fst ` S)), pos_y = real (Min (snd ` S)),
                   width = real (Max (fst ` S)) - real (Min (fst ` S)),
                   height = real (Max (snd ` S)) - real (Min (snd ` S))\<rparr>)
   \<and> (lit_pixels canvasW canvasH d = {p} \<longrightarrow>
        content_bounds canvasW canvasH d =
          Some \<lparr>pos_x = real (fst p), pos_y = real (snd p), width = 0, height = 0\<rparr>)
   \<and> (loadImage P imageSrc = Some sz \<and> context2d P \<longrightarrow>
        getContentBounds P imageSrc canvasW canvasH =
          Resolved (content_bounds canvasW canvasH
            (getImageData P \<lparr>cv_width = real canvasW, cv_height = real canvasH,
                              cv_ops = [DrawImage imageSrc 0 0]\<rparr>)))"
proof (intro conjI impI)
  show "content_bounds canvasW canvasH d = None \<longleftrightarrow> lit_pixels canvasW canvasH d = {}"
    by (simp add: content_bounds_eq Let_def)
  show "content_bounds canvasW canvasH d =
       (let S = lit_pixels canvasW canvasH d in
        if S = {} then None
        else Some \<lparr>pos_x = real (Min (fst ` S)), pos_y = real (Min (snd ` S)),
                   width = real (Max (fst ` S)) - real (Min (fst ` S)),
                   height = real (Max (snd ` S)) - real (Min (snd ` S))\<rparr>)"
    by (rule content_bounds_eq)
next
  assume "lit_pixels canvasW canvasH d = {p}"
  then show "content_bounds canvasW canvasH d =
          Some \<lparr>pos_x = real (fst p), pos_y = real (snd p), width = 0, height = 0\<rparr>"
    by (simp add: content_bounds_eq Let_def)
next
  assume "loadImage P imageSrc = Some sz \<and> context2d P"
  then show "getContentBounds P imageSrc canvasW canvasH =
          Resolved (content_bounds canvasW canvasH
            (getImageData P \<lparr>cv_width = real canvasW, cv_height = real canvasH,
                              cv_ops = [DrawImage imageSrc 0 0]\<rparr>))"
    by (simp add: getContentBounds_def)
qed

theorem getContentBounds_rect_witness:
  "lit_pixels 2 2 [0, 0, 0, 0, 9, 9, 9, 9, 0, 0, 0, 0, 0, 0, 0, 0] = {(1, 0)}
   \<and> content_bounds 2 2 [0, 0, 0, 0, 9, 9, 9, 9, 0, 0, 0, 0, 0, 0, 0, 0] =
       Some \<lparr>pos_x = 1, pos_y = 0, width = 0, height = 0\<rparr>
   \<and> getContentBounds (example_browser [0, 0, 0, 0, 9, 9, 9, 9, 0, 0, 0, 0, 0, 0, 0, 0]) ''mask'' 2 2 =
       Resolved (Some \<lparr>pos_x = 1, pos_y = 0, width = 0, height = 0\<rparr>)"
proof -
  let ?d = "[0, 0, 0, 0, 9, 9, 9, 9, 0, 0, 0, 0, 0, 0, 0, 0] :: byte list"
  have h: "loadImage (example_browser ?d) ''mask'' = Some (2, 2) \<and> context2d (example_browser ?d)"
    by (simp add: example_browser_def)
  have g: "getImageData (example_browser ?d) c = ?d" for c
    by (simp add: example_browser_def)
  show ?thesis
    using getContentBounds_rect[of 2 2 ?d "(1, 0)" "example_browser ?d" "''mask''" "(2, 2)"]
      one_lit_pixel h g by simp
qed

section \<open>Properties of the history\<close>

lemma commit_fields:
  "history (commit A s) = slice0 (history s) (historyIndex s + 1) @ [A]"
  "historyIndex (commit A s) = int (length (slice0 (history s) (historyIndex s + 1)))"
  "layers (commit A s) = A"
  by (simp_all add: commit_def addToHistory_def Let_def)

lemma commit_from:
  assumes "history s = h" and "historyIndex s = i"
  shows "history (commit A s) = slice0 h (i + 1) @ [A]"
    and "historyIndex (commit A s) = int (length (slice0 h (i + 1)))"
  using assms by (simp_all add: commit_fields)

lemma slice0_all: "0 \<le> e \<Longrightarrow> int (length xs) \<le> e \<Longrightarrow> slice0 xs e = xs"
  by (simp add: slice0_def)

lemma slice0_length:
  "length (slice0 xs e) = (if e < 0 then nat (int (length xs) + e) else min (nat e) (length xs))"
  by (auto simp: slice0_def)

lemma commit_cursor: "cursor_in_bounds (commit A s)"
  by (simp add: cursor_in_bounds_def commit_fields)

lemma undo_cursor:
  "cursor_in_bounds s \<Longrightarrow> \<exists>s'. handleUndo s = Some s' \<and> cursor_in_bounds s'"
  by (auto simp: handleUndo_def cursor_in_bounds_def nth_opt_def Let_def)

lemma redo_cursor:
  "cursor_in_bounds s \<Longrightarrow> \<exists>s'. handleRedo s = Some s' \<and> cursor_in_bounds s'"
  by (auto simp: handleRedo_def cursor_in_bounds_def nth_opt_def Let_def)

lemma undo_noop: "historyIndex s \<le> 0 \<Longrightarrow> handleUndo s = Some s"
  by (simp add: handleUndo_def)

lemma redo_noop: "int (length (history s)) - 1 \<le> historyIndex s \<Longrightarrow> handleRedo s = Some s"
  by (simp add: handleRedo_def)

lemma undo_step:
  "0 < historyIndex s \<Longrightarrow> nth_opt (history s) (historyIndex s - 1) = Some ls \<Longrightarrow>
   handleUndo s = Some (s\<lparr>historyIndex := historyIndex s - 1, layers := ls, selection := None\<rparr>)"
  by (simp add: handleUndo_def Let_def)

lemma redo_step:
  "historyIndex s < int (length (history s)) - 1 \<Longrightarrow>
   nth_opt (history s) (historyIndex s + 1) = Some ls \<Longrightarrow>
   handleRedo s = Some (s\<lparr>historyIndex := historyIndex s + 1, layers := ls, selection := None\<rparr>)"
  by (simp add: handleRedo_def Let_def)

lemma round_trip_inside:
  assumes "0 \<le> historyIndex s" and "historyIndex s < int (length (history s))"
  shows "\<exists>s'. round_trip A B s = Some s' \<and> layers s' = A
            \<and> historyIndex s' = historyIndex s + 1
            \<and> history s' = take (nat (historyIndex s) + 1) (history s) @ [A, B]"
proof -
  define n where "n = nat (historyIndex s)"
  define h where "h = take (n + 1) (history s)"
  define i1 where "i1 = int n + 1"
  define i2 where "i2 = int n + 2"
  have i: "historyIndex s = int n" and n: "n < length (history s)"
    using assms by (simp_all add: n_def)
  have lh: "length h = n + 1" using n by (simp add: h_def)
  have sl: "slice0 (history s) (int n + 1) = h" by (simp add: slice0_def nat_add_distrib h_def)
  let ?s1 = "commit A s"
  have h1: "history ?s1 = h @ [A]" and x1: "historyIndex ?s1 = i1"
    using commit_from[OF refl i, of A] lh by (simp_all add: sl i1_def)
  let ?s2 = "commit B ?s1"
  have h2: "history ?s2 = h @ [A, B]" and x2: "historyIndex ?s2 = i2"
    using commit_from[OF h1 x1, of B] lh by (simp_all add: slice0_all i1_def i2_def)
  have a: "nth_opt (h @ [A, B]) i1 = Some A"
    using lh by (simp add: nth_opt_def nth_append nat_add_distrib i1_def)
  have b: "nth_opt (h @ [A, B]) (int n) = Some (history s ! n)"
    using lh n by (simp add: nth_opt_def nth_append h_def)
  let ?s3 = "?s2\<lparr>historyIndex := i1, layers := A, selection := None\<rparr>"
  have e1: "i2 - 1 = i1" and e0: "i1 - 1 = int n" and e2: "int n + 1 = i1"
    by (simp_all add: i1_def i2_def)
  have u1: "handleUndo ?s2 = Some ?s3"
  proof -
    have c1: "0 < historyIndex ?s2" by (simp add: x2 i2_def)
    have c2: "nth_opt (history ?s2) (historyIndex ?s2 - 1) = Some A"
      by (simp only: h2 x2 e1 a)
    show ?thesis using undo_step[OF c1 c2] by (simp add: x2 i1_def i2_def)
  qed
  let ?s4 = "?s3\<lparr>historyIndex := int n, layers := history s ! n, selection := None\<rparr>"
  have h3: "history ?s3 = h @ [A, B]" and x3: "historyIndex ?s3 = i1" by (simp_all add: h2)
  have u2: "handleUndo ?s3 = Some ?s4"
  proof -
    have c1: "0 < historyIndex ?s3" by (simp add: i1_def)
    have c2: "nth_opt (history ?s3) (historyIndex ?s3 - 1) = Some (history s ! n)"
      by (simp only: h3 x3 e0 b)
    show ?thesis using undo_step[OF c1 c2] by (simp add: i1_def)
  qed
  let ?s5 = "?s4\<lparr>historyIndex := i1, layers := A, selection := None\<rparr>"
  have h4: "history ?s4 = h @ [A, B]" and x4: "historyIndex ?s4 = int n" by (simp_all add: h2)
  have r: "handleRedo ?s4 = Some ?s5"
  proof -
    have c1: "historyIndex ?s4 < int (length (history ?s4)) - 1"
      unfolding h4 x4 using lh by simp
    have c2: "nth_opt (history ?s4) (historyIndex ?s4 + 1) = Some A"
      by (simp only: h4 x4 e2 a)
    show ?thesis using redo_step[OF c1 c2] by (simp add: i1_def)
  qed
  have "round_trip A B s = Some ?s5"
    by (simp only: round_trip_def u1 u2 r Option.bind.simps)
  moreover have "layers ?s5 = A" "historyIndex ?s5 = historyIndex s + 1"
    "history ?s5 = take (nat (historyIndex s) + 1) (history s) @ [A, B]"
    by (simp_all add: i h2 i1_def h_def)
  ultimately show ?thesis by blast
qed

lemma round_trip_fresh:
  assumes "historyIndex s = - 1"
  shows "\<exists>s'. round_trip A B s = Some s' \<and> layers s' = B \<and> historyIndex s' = 1 \<and> history s' = [A, B]"
proof -
  let ?s1 = "commit A s"
  have h1: "history ?s1 = [A]" and i1: "historyIndex ?s1 = 0"
    using commit_from[OF refl assms, of A] by (simp_all add: slice0_def)
  let ?s2 = "commit B ?s1"
  have h2: "history ?s2 = [A, B]" and i2: "historyIndex ?s2 = 1"
    using commit_from[OF h1 i1, of B] by (simp_all add: slice0_def)
  let ?s3 = "?s2\<lparr>historyIndex := 0, layers := A, selection := None\<rparr>"
  have u1: "handleUndo ?s2 = Some ?s3"
    by (simp add: handleUndo_def h2 i2 nth_opt_def Let_def)
  have u2: "handleUndo ?s3 = Some ?s3"
    by (simp add: handleUndo_def)
  let ?s5 = "?s3\<lparr>historyIndex := 1, layers := B, selection := None\<rparr>"
  have r: "handleRedo ?s3 = Some ?s5"
    by (simp add: handleRedo_def h2 nth_opt_def Let_def)
  have "round_trip A B s = Some ?s5"
    by (simp only: round_trip_def u1 u2 r Option.bind.simps)
  moreover have "layers ?s5 = B" "historyIndex ?s5 = 1" "history ?s5 = [A, B]"
    by (simp_all add: h2)
  ultimately show ?thesis by blast
qed

lemma bootstrap_initial:
  "history (bootstrap P initial_state) = [layers (bootstrap P initial_state)]"
  "historyIndex (bootstrap P initial_state) = 0"
  by (simp_all add: bootstrap_def initial_state_def Let_def)

section \<open>Properties of navigation\<close>

lemma capture_if_resolved:
  "snd (capture_if present P rect ls) = Resolved v \<Longrightarrow> (v \<noteq> None) = present"
  by (auto simp: capture_if_def awaitT_def map_promise_def split: if_splits promise.splits)

lemma bindT_resolved:
  "snd (bindT m f) = Resolved w \<Longrightarrow> \<exists>v. snd m = Resolved v \<and> snd (f v) = Resolved w"
  by (cases m) (auto simp: bindT_def split: promise.splits prod.splits)

lemma navigate_neighbors_flags:
  assumes "snd (navigate_neighbors P ls targetX targetY) = Resolved n"
  shows "(nb_left n \<noteq> None) = hasLeft ls targetX targetY
       \<and> (nb_right n \<noteq> None) = hasRight ls targetX targetY
       \<and> (nb_top n \<noteq> None) = hasTop ls targetX targetY
       \<and> (nb_bottom n \<noteq> None) = hasBottom ls targetX targetY"
proof -
  from assms obtain l where l: "(l \<noteq> None) = hasLeft ls targetX targetY"
    and 1: "snd (bindT (capture_if (hasRight ls targetX targetY) P
              \<lparr>pos_x = targetX + CANVAS_WIDTH, pos_y = targetY, width = STRIP_SIZE, height = CANVAS_HEIGHT\<rparr> ls)
       (\<lambda>r. bindT (capture_if (hasTop ls targetX targetY) P
              \<lparr>pos_x = targetX, pos_y = targetY - STRIP_SIZE, width = CANVAS_WIDTH, height = STRIP_SIZE\<rparr> ls)
       (\<lambda>t. bindT (capture_if (hasBottom ls targetX targetY) P
              \<lparr>pos_x = targetX, pos_y = targetY + CANVAS_HEIGHT, width = CANVAS_WIDTH, height = STRIP_SIZE\<rparr> ls)
       (\<lambda>b. ([], Resolved \<lparr>nb_left = l, nb_right = r, nb_top = t, nb_bottom = b\<rparr>))))) = Resolved n"
    unfolding navigate_neighbors_def
    by (blast dest: bindT_resolved capture_if_resolved)
  from 1 obtain r where r: "(r \<noteq> None) = hasRight ls targetX targetY"
    and 2: "snd (bindT (capture_if (hasTop ls targetX targetY) P
              \<lparr>pos_x = targetX, pos_y = targetY - STRIP_SIZE, width = CANVAS_WIDTH, height = STRIP_SIZE\<rparr> ls)
       (\<lambda>t. bindT (capture_if (hasBottom ls targetX targetY) P
              \<lparr>pos_x = targetX, pos_y = targetY + CANVAS_HEIGHT, width = CANVAS_WIDTH, height = STRIP_SIZE\<rparr> ls)
       (\<lambda>b. ([], Resolved \<lparr>nb_left = l, nb_right = r, nb_top = t, nb_bottom = b\<rparr>)))) = Resolved n"
    by (blast dest: bindT_resolved capture_if_resolved)
  from 2 obtain t where t: "(t \<noteq> None) = hasTop ls targetX targetY"
    and 3: "snd (bindT (capture_if (hasBottom ls targetX targetY) P
              \<lparr>pos_x = targetX, pos_y = targetY + CANVAS_HEIGHT, width = CANVAS_WIDTH, height = STRIP_SIZE\<rparr> ls)
       (\<lambda>b. ([], Resolved \<lparr>nb_left = l, nb_right = r, nb_top = t, nb_bottom = b\<rparr>))) = Resolved n"
    by (blast dest: bindT_resolved capture_if_resolved)
  from 3 obtain b where b: "(b \<noteq> None) = hasBottom ls targetX targetY"
    and 4: "n = \<lparr>nb_left = l, nb_right = r, nb_top = t, nb_bottom = b\<rparr>"
    by (fastforce dest: bindT_resolved capture_if_resolved)
  show ?thesis using l r t b by (simp add: 4)
qed

lemma example_navigate_two_tiles:
  "snd (navigate_neighbors (example_browser [])
     [example_ground, example_ground\<lparr>pos_x := 1024 + 40\<rparr>] 0 0)
   = Resolved \<lparr>nb_left = None, nb_right = Some ''url'', nb_top = None, nb_bottom = None\<rparr>"
  by (simp add: navigate_neighbors_def capture_if_def hasLeft_def hasRight_def hasTop_def
      hasBottom_def EPSILON_def CANVAS_WIDTH_def CANVAS_HEIGHT_def STRIP_SIZE_def example_ground_def
      bindT_def awaitT_def map_promise_def getCompositeRect_def getCompositeRect_canvas_def
      sort_by_zIndex_def example_browser_def Let_def)

text \<open>
  Claim C6. Neighbour existence is tested against base layers only, by a match within
  \<open>EPSILON = 100\<close> on both coordinates: on each of the four sides the test succeeds exactly
  when some base layer of the scene lies less than 100 from the expected position of that
  neighbour on both axes (the target moved by 1024 to that side), whatever else the scene
  holds. For a target tile at the world origin, a base layer at (1024 + 40, 0) is found as the
  right neighbour, alone or beside a base tile at the origin; a base layer at (1024 + 150, 0)
  is not, nor one at distance exactly 100 on either axis, nor an object layer at
  (1024 + 40, 0). In \<^verbatim>\<open>handleNavigate\<close> a strip is captured for a side exactly when the test
  of that side succeeds.
\<close>

theorem right_neighbor_detection:
  "hasRight ls targetX targetY =
     (\<exists>l \<in> set ls. layer_type l = Base \<and> \<bar>pos_x l - (targetX + 1024)\<bar> < 100
                    \<and> \<bar>pos_y l - targetY\<bar> < 100)
   \<and> hasLeft ls targetX targetY =
     (\<exists>l \<in> set ls. layer_type l = Base \<and> \<bar>pos_x l - (targetX - 1024)\<bar> < 100
                    \<and> \<bar>pos_y l - targetY\<bar> < 100)
   \<and> hasTop ls targetX targetY =
     (\<exists>l \<in> set ls. layer_type l = Base \<and> \<bar>pos_x l - targetX\<bar> < 100
                    \<and> \<bar>pos_y l - (targetY - 1024)\<bar> < 100)
   \<and> hasBottom ls targetX targetY =
     (\<exists>l \<in> set ls. layer_type l = Base \<and> \<bar>pos_x l - targetX\<bar> < 100
                    \<and> \<bar>pos_y l - (targetY + 1024)\<bar> < 100)
   \<and> hasRight ls targetX targetY = hasRight (filter (\<lambda>l. layer_type l = Base) ls) targetX targetY
   \<and> hasLeft ls targetX targetY = hasLeft (filter (\<lambda>l. layer_type l = Base) ls) targetX targetY
   \<and> hasTop ls targetX targetY = hasTop (filter (\<lambda>l. layer_type l = Base) ls) targetX targetY
   \<and> hasBottom ls targetX targetY = hasBottom (filter (\<lambda>l. layer_type l = Base) ls) targetX targetY
   \<and> hasRight [l] targetX targetY =
       (layer_type l = Base \<and> \<bar>pos_x l - (targetX + 1024)\<bar> < 100 \<and> \<bar>pos_y l - targetY\<bar> < 100)
   \<and> hasRight [l\<lparr>pos_x := 1024 + 40, pos_y := 0, layer_type := Base\<rparr>] 0 0
   \<and> \<not> hasRight [l\<lparr>pos_x := 1024 + 150, pos_y := 0, layer_type := Base\<rparr>] 0 0
   \<and> \<not> hasRight [l\<lparr>pos_x := 1024 + 40, pos_y := 0, layer_type := Object\<rparr>] 0 0
   \<and> hasRight [k\<lparr>pos_x := 0, pos_y := 0, layer_type := Base\<rparr>,
                l\<lparr>pos_x := 1024 + 40, pos_y := 0, layer_type := Base\<rparr>] 0 0
   \<and> \<not> hasRight [k\<lparr>pos_x := 0, pos_y := 0, layer_type := Base\<rparr>,
                  l\<lparr>pos_x := 1024 + 150, pos_y := 0, layer_type := Base\<rparr>] 0 0
   \<and> \<not> hasRight [k\<lparr>pos_x := 0, pos_y := 0, layer_type := Base\<rparr>,
                  l\<lparr>pos_x := 1024 + 40, pos_y := 0, layer_type := Object\<rparr>] 0 0
   \<and> \<not> hasRight [l\<lparr>pos_x := 1024 + 100, pos_y := 0, layer_type := Base\<rparr>] 0 0
   \<and> \<not> hasRight [l\<lparr>pos_x := 1024 + 40, pos_y := 100, layer_type := Base\<rparr>] 0 0
   \<and> (snd (navigate_neighbors P ls targetX targetY) = Resolved n \<longrightarrow>
        (nb_left n \<noteq> None) = hasLeft ls targetX targetY
        \<and> (nb_right n \<noteq> None) = hasRight ls targetX targetY
        \<and> (nb_top n \<noteq> None) = hasTop ls targetX targetY
        \<and> (nb_bottom n \<noteq> None) = hasBottom ls targetX targetY)"
proof -
  have f: "list_ex (\<lambda>l. layer_type l = Base \<and> Q l) ls
         = list_ex (\<lambda>l. layer_type l = Base \<and> Q l) (filter (\<lambda>l. layer_type l = Base) ls)" for Q
    by (induction ls) auto
  have g: "snd (navigate_neighbors P ls targetX targetY) = Resolved n \<longrightarrow>
        (nb_left n \<noteq> None) = hasLeft ls targetX targetY
        \<and> (nb_right n \<noteq> None) = hasRight ls targetX targetY
        \<and> (nb_top n \<noteq> None) = hasTop ls targetX targetY
        \<and> (nb_bottom n \<noteq> None) = hasBottom ls targetX targetY"
    using navigate_neighbors_flags by blast
  have e: "hasRight ls targetX targetY =
     (\<exists>l \<in> set ls. layer_type l = Base \<and> \<bar>pos_x l - (targetX + 1024)\<bar> < 100
                    \<and> \<bar>pos_y l - targetY\<bar> < 100)
   \<and> hasLeft ls targetX targetY =
     (\<exists>l \<in> set ls. layer_type l = Base \<and> \<bar>pos_x l - (targetX - 1024)\<bar> < 100
                    \<and> \<bar>pos_y l - targetY\<bar> < 100)
   \<and> hasTop ls targetX targetY =
     (\<exists>l \<in> set ls. layer_type l = Base \<and> \<bar>pos_x l - targetX\<bar> < 100
                    \<and> \<bar>pos_y l - (targetY - 1024)\<bar> < 100)
   \<and> hasBottom ls targetX targetY =
     (\<exists>l \<in> set ls. layer_type l = Base \<and> \<bar>pos_x l - targetX\<bar> < 100
                    \<and> \<bar>pos_y l - (targetY + 1024)\<bar> < 100)"
    by (simp add: hasRight_def hasLeft_def hasTop_def hasBottom_def EPSILON_def CANVAS_WIDTH_def
      CANVAS_HEIGHT_def list_ex_iff)
  have h: "hasRight ls targetX targetY = hasRight (filter (\<lambda>l. layer_type l = Base) ls) targetX targetY
   \<and> hasLeft ls targetX targetY = hasLeft (filter (\<lambda>l. layer_type l = Base) ls) targetX targetY
   \<and> hasTop ls targetX targetY = hasTop (filter (\<lambda>l. layer_type l = Base) ls) targetX targetY
   \<and> hasBottom ls targetX targetY = hasBottom (filter (\<lambda>l. layer_type l = Base) ls) targetX targetY
   \<and> hasRight [l] targetX targetY =
       (layer_type l = Base \<and> \<bar>pos_x l - (targetX + 1024)\<bar> < 100 \<and> \<bar>pos_y l - targetY\<bar> < 100)
   \<and> hasRight [l\<lparr>pos_x := 1024 + 40, pos_y := 0, layer_type := Base\<rparr>] 0 0
   \<and> \<not> hasRight [l\<lparr>pos_x := 1024 + 150, pos_y := 0, layer_type := Base\<rparr>] 0 0
   \<and> \<not> hasRight [l\<lparr>pos_x := 1024 + 40, pos_y := 0, layer_type := Object\<rparr>] 0 0
   \<and> hasRight [k\<lparr>pos_x := 0, pos_y := 0, layer_type := Base\<rparr>,
                l\<lparr>pos_x := 1024 + 40, pos_y := 0, layer_type := Base\<rparr>] 0 0
   \<and> \<not> hasRight [k\<lparr>pos_x := 0, pos_y := 0, layer_type := Base\<rparr>,
                  l\<lparr>pos_x := 1024 + 150, pos_y := 0, layer_type := Base\<rparr>] 0 0
   \<and> \<not> hasRight [k\<lparr>pos_x := 0, pos_y := 0, layer_type := Base\<rparr>,
                  l\<lparr>pos_x := 1024 + 40, pos_y := 0, layer_type := Object\<rparr>] 0 0
   \<and> \<not> hasRight [l\<lparr>pos_x := 1024 + 100, pos_y := 0, layer_type := Base\<rparr>] 0 0
   \<and> \<not> hasRight [l\<lparr>pos_x := 1024 + 40, pos_y := 100, layer_type := Base\<rparr>] 0 0"
    unfolding hasRight_def hasLeft_def hasTop_def hasBottom_def EPSILON_def CANVAS_WIDTH_def
      CANVAS_HEIGHT_def
    by (intro conjI f) simp_all
  from e h g show ?thesis by (elim conjE, intro conjI) assumption+
qed

theorem right_neighbor_detection_witness:
  "snd (navigate_neighbors (example_browser [])
          [example_ground, example_ground\<lparr>pos_x := 1024 + 40\<rparr>] 0 0)
     = Resolved \<lparr>nb_left = None, nb_right = Some ''url'', nb_top = None, nb_bottom = None\<rparr>
   \<and> hasRight [example_ground, example_ground\<lparr>pos_x := 1024 + 40\<rparr>] 0 0
   \<and> \<not> hasLeft [example_ground, example_ground\<lparr>pos_x := 1024 + 40\<rparr>] 0 0
   \<and> \<not> hasTop [example_ground, example_ground\<lparr>pos_x := 1024 + 40\<rparr>] 0 0
   \<and> \<not> hasBottom [example_ground, example_ground\<lparr>pos_x := 1024 + 40\<rparr>] 0 0"
proof -
  let ?ls = "[example_ground, example_ground\<lparr>pos_x := 1024 + 40\<rparr>]"
  let ?n = "\<lparr>nb_left = None, nb_right = Some ''url'', nb_top = None, nb_bottom = None\<rparr>"
  from right_neighbor_detection[of ?ls 0 0 example_ground example_ground "example_browser []" ?n]
  have "snd (navigate_neighbors (example_browser []) ?ls 0 0) = Resolved ?n \<longrightarrow>
        (nb_left ?n \<noteq> None) = hasLeft ?ls 0 0
        \<and> (nb_right ?n \<noteq> None) = hasRight ?ls 0 0
        \<and> (nb_top ?n \<noteq> None) = hasTop ?ls 0 0
        \<and> (nb_bottom ?n \<noteq> None) = hasBottom ?ls 0 0"
    by - (elim conjE, assumption)
  with example_navigate_two_tiles show ?thesis by simp
qed

section \<open>Properties of the application\<close>

subsection \<open>The z-order invariant\<close>

lemma scene_ok_simps:
  "scene_ok []" "scene_ok (l # ls) = (zIndex_ok l \<and> scene_ok ls)"
  "scene_ok (ls @ ms) = (scene_ok ls \<and> scene_ok ms)"
  by (simp_all add: scene_ok_def)

lemma scene_ok_filter: "scene_ok ls \<Longrightarrow> scene_ok (filter Q ls)"
  by (simp add: scene_ok_def list_all_iff)

lemma scene_ok_map:
  "scene_ok ls \<Longrightarrow> (\<And>l. zIndex_ok l \<Longrightarrow> zIndex_ok (f l)) \<Longrightarrow> scene_ok (map f ls)"
  by (simp add: scene_ok_def list_all_iff)

lemma slice0_ok: "list_all Q xs \<Longrightarrow> list_all Q (slice0 xs e)"
  by (auto simp: slice0_def list_all_iff dest: in_set_takeD)

lemma addToHistory_ok:
  "list_all scene_ok (history c) \<Longrightarrow> scene_ok new \<Longrightarrow> state_ok (addToHistory c new t)"
  by (simp add: addToHistory_def state_ok_def Let_def slice0_ok)

lemma set_debug_logs_scene:
  "layers (set_debug_logs logs t) = layers t"
  "history (set_debug_logs logs t) = history t"
  "historyIndex (set_debug_logs logs t) = historyIndex t"
  unfolding set_debug_logs_def by (induction logs arbitrary: t) simp_all

lemma state_ok_cong:
  "layers s' = layers s \<Longrightarrow> history s' = history s \<Longrightarrow> state_ok s' = state_ok s"
  by (simp add: state_ok_def)

lemma zIndex_ok_navigate_layer: "zIndex_ok (navigate_layer gx gy img)"
  by (simp add: zIndex_ok_def navigate_layer_def)

lemma asset_layer_fields:
  "layer_type (asset_layer P c tgt) = Object"
  "zIndex (asset_layer P c tgt) = int (length (layers c)) + 10"
proof -
  obtain a b c' d e f where "tgt = (a, b, c', d, e, f)" by (metis prod_cases6)
  then show "layer_type (asset_layer P c tgt) = Object"
    "zIndex (asset_layer P c tgt) = int (length (layers c)) + 10"
    by (simp_all add: asset_layer_def)
qed

lemma zIndex_ok_asset_layer: "zIndex_ok (asset_layer P c tgt)"
  by (simp add: zIndex_ok_def asset_layer_fields)

lemma zIndex_ok_base_layer: "zIndex_ok (base_layer P c img)"
  by (simp add: zIndex_ok_def base_layer_def Let_def)

lemma navigate_conclude_ok:
  assumes "state_ok c" and "state_ok t"
  shows "state_ok (navigate_conclude c gx gy outcome t)"
proof (cases "snd outcome")
  case (Resolved img)
  have "state_ok (addToHistory c (layers c @ [navigate_layer gx gy img]) (set_debug_logs (fst outcome) t))"
    using assms(1) by (intro addToHistory_ok) (simp_all add: state_ok_def scene_ok_simps zIndex_ok_navigate_layer)
  then show ?thesis using Resolved
    by (simp add: navigate_conclude_def Let_def state_ok_def)
next
  case (Rejected e)
  then show ?thesis using assms(2)
    by (simp add: navigate_conclude_def Let_def state_ok_def set_debug_logs_scene)
next
  case Pending
  then show ?thesis using assms(2)
    by (simp add: navigate_conclude_def Let_def state_ok_def set_debug_logs_scene)
qed

lemma handleNavigate_ok:
  assumes ok: "state_ok s"
  shows "state_ok (handleNavigate P dir s)"
proof -
  have 1: "state_ok (s\<lparr>viewState := v\<rparr>)" for v using ok by (simp add: state_ok_def)
  have 2: "state_ok (s\<lparr>viewState := v, isGenerating := True\<rparr>)" for v
    using ok by (simp add: state_ok_def)
  show ?thesis
    unfolding handleNavigate_def Let_def by (simp add: 1 navigate_conclude_ok[OF ok 2])
qed

lemma asset_conclude_ok:
  assumes "state_ok c" and "state_ok t"
  shows "state_ok (asset_conclude P c outcome t)"
proof (cases "snd outcome")
  case (Resolved tgt)
  have "state_ok (addToHistory c (layers c @ [asset_layer P c tgt]) u)" for u
    using assms(1) by (intro addToHistory_ok) (simp_all add: state_ok_def scene_ok_simps zIndex_ok_asset_layer)
  then show ?thesis using Resolved
    by (simp add: asset_conclude_def Let_def state_ok_def)
next
  case (Rejected e)
  then show ?thesis using assms(2)
    by (simp add: asset_conclude_def Let_def state_ok_def set_debug_logs_scene)
next
  case Pending
  then show ?thesis using assms(2)
    by (simp add: asset_conclude_def Let_def state_ok_def set_debug_logs_scene)
qed

lemma handleGenerateAsset_ok:
  assumes ok: "state_ok s"
  shows "state_ok (handleGenerateAsset P s)"
proof -
  have 2: "state_ok (s\<lparr>isGenerating := True, error := None\<rparr>)"
    using ok by (simp add: state_ok_def)
  show ?thesis
    unfolding handleGenerateAsset_def by (simp add: ok asset_conclude_ok[OF ok 2])
qed

lemma base_conclude_ok:
  assumes "state_ok c" and "state_ok t"
  shows "state_ok (base_conclude P c outcome t)"
proof (cases "snd outcome")
  case (Resolved img)
  have "scene_ok (base_prevLayers c)"
    using assms(1) by (simp add: base_prevLayers_def Let_def state_ok_def scene_ok_filter)
  then have "state_ok (addToHistory c (base_layer P c img # base_prevLayers c) u)" for u
    using assms(1) by (intro addToHistory_ok) (simp_all add: state_ok_def scene_ok_simps zIndex_ok_base_layer)
  then show ?thesis using Resolved
    by (simp add: base_conclude_def Let_def state_ok_def)
next
  case (Rejected e)
  then show ?thesis using assms(2)
    by (simp add: base_conclude_def Let_def state_ok_def set_debug_logs_scene)
next
  case Pending
  then show ?thesis using assms(2)
    by (simp add: base_conclude_def Let_def state_ok_def set_debug_logs_scene)
qed

lemma handleGenerateBase_ok:
  assumes ok: "state_ok s"
  shows "state_ok (handleGenerateBase P s)"
proof -
  have 2: "state_ok (s\<lparr>isBaseModalOpen := False, isGenerating := True, error := None,
                lastBasePrompt := basePrompt s\<rparr>)"
    using ok by (simp add: state_ok_def)
  show ?thesis
    unfolding handleGenerateBase_def by (simp add: ok base_conclude_ok[OF ok 2])
qed

lemma bootstrap_ok: "state_ok s \<Longrightarrow> state_ok (bootstrap P s)"
  by (simp add: bootstrap_def Let_def state_ok_def scene_ok_simps zIndex_ok_def)

lemma edits_ok:
  assumes "state_ok s"
  shows "state_ok (handleDeleteLayer i s)"
    and "state_ok (handleToggleVisibility i s)"
    and "state_ok (updateLayerPosition i px py s)"
    and "state_ok (handleMoveEnd s)"
    and "state_ok (updateLayerData_imageData i newData s)"
proof -
  have h: "list_all scene_ok (history s)" and l: "scene_ok (layers s)"
    using assms by (simp_all add: state_ok_def)
  have "state_ok (addToHistory s (filter (\<lambda>l. layer_id l \<noteq> i) (layers s)) s)"
    using h l by (intro addToHistory_ok scene_ok_filter)
  then show "state_ok (handleDeleteLayer i s)"
    by (simp add: handleDeleteLayer_def state_ok_def)
  show "state_ok (handleToggleVisibility i s)"
    unfolding handleToggleVisibility_def using h l
    by (intro addToHistory_ok scene_ok_map) (simp_all add: zIndex_ok_def)
  have "scene_ok (map (\<lambda>l. if layer_id l = i then l\<lparr>pos_x := px, pos_y := py\<rparr> else l) (layers s))"
    using l by (intro scene_ok_map) (simp_all add: zIndex_ok_def)
  then show "state_ok (updateLayerPosition i px py s)"
    using h by (simp add: updateLayerPosition_def state_ok_def)
  show "state_ok (handleMoveEnd s)"
    unfolding handleMoveEnd_def using h l by (intro addToHistory_ok)
  show "state_ok (updateLayerData_imageData i newData s)"
    unfolding updateLayerData_imageData_def using h l
    by (intro addToHistory_ok scene_ok_map) (simp_all add: zIndex_ok_def)
qed

lemma nth_opt_ok: "list_all Q xs \<Longrightarrow> nth_opt xs i = Some v \<Longrightarrow> Q v"
  by (auto simp: nth_opt_def list_all_length split: if_splits)

lemma undo_ok: "state_ok s \<Longrightarrow> handleUndo s = Some s' \<Longrightarrow> state_ok s'"
  by (auto simp: handleUndo_def state_ok_def Let_def split: if_splits option.splits
      dest: nth_opt_ok)

lemma redo_ok: "state_ok s \<Longrightarrow> handleRedo s = Some s' \<Longrightarrow> state_ok s'"
  by (auto simp: handleRedo_def state_ok_def Let_def split: if_splits option.splits
      dest: nth_opt_ok)

lemma reachable_ok: "reachable s \<Longrightarrow> state_ok s"
proof (induction rule: reachable.induct)
  case r_init
  show ?case by (simp add: state_ok_def initial_state_def scene_ok_simps)
next
  case (r_interface s s')
  then show ?case by (simp add: state_ok_def)
next
  case (r_undo s s')
  then show ?case by (blast intro: undo_ok)
next
  case (r_redo s s')
  then show ?case by (blast intro: redo_ok)
qed (rule bootstrap_ok handleNavigate_ok handleGenerateAsset_ok handleGenerateBase_ok
      edits_ok, assumption)+

lemma sorted_bases_first:
  assumes "scene_ok ls" and "i < j" and "j < length (sort_by_zIndex ls)"
  shows "\<not> (layer_type (sort_by_zIndex ls ! i) = Object \<and> layer_type (sort_by_zIndex ls ! j) = Base)"
proof
  let ?s = "sort_by_zIndex ls"
  assume a: "layer_type (?s ! i) = Object \<and> layer_type (?s ! j) = Base"
  have srt: "sorted (map zIndex ?s)" by (simp add: sort_by_zIndex_def)
  have mem: "?s ! i \<in> set ls" "?s ! j \<in> set ls"
    using assms(2,3) by (metis (no_types) sort_by_zIndex_def set_sort nth_mem less_trans)+
  then have ok: "zIndex_ok (?s ! i)" "zIndex_ok (?s ! j)"
    using assms(1) by (simp_all add: scene_ok_def list_all_iff)
  have "map zIndex ?s ! i \<le> map zIndex ?s ! j"
    using srt assms(2,3) by (intro sorted_nth_mono) simp_all
  then have "zIndex (?s ! i) \<le> zIndex (?s ! j)" using assms(2,3) by simp
  with a ok show False by (simp add: zIndex_ok_def)
qed

lemma bootstrap_creates:
  "layers (bootstrap P s) = layers s
   \<or> (\<exists>l. layers (bootstrap P s) = [l] \<and> layer_type l = Base \<and> zIndex l = 0)"
  by (simp add: bootstrap_def Let_def)

lemma addToHistory_layers: "layers (addToHistory c new t) = new"
  by (simp add: addToHistory_def Let_def)

lemma navigate_conclude_layers:
  "layers (navigate_conclude c gx gy outcome t) =
     (case snd outcome of Resolved img \<Rightarrow> layers c @ [navigate_layer gx gy img] | _ \<Rightarrow> layers t)"
  by (simp add: navigate_conclude_def Let_def addToHistory_layers set_debug_logs_scene
      split: promise.splits)

lemma asset_conclude_layers:
  "layers (asset_conclude P c outcome t) =
     (case snd outcome of Resolved tgt \<Rightarrow> layers c @ [asset_layer P c tgt] | _ \<Rightarrow> layers t)"
  by (simp add: asset_conclude_def Let_def addToHistory_layers set_debug_logs_scene
      split: promise.splits)

lemma base_conclude_layers:
  "layers (base_conclude P c outcome t) =
     (case snd outcome of Resolved img \<Rightarrow> base_layer P c img # base_prevLayers c | _ \<Rightarrow> layers t)"
  by (simp add: base_conclude_def Let_def addToHistory_layers set_debug_logs_scene
      split: promise.splits)

lemma navigate_creates:
  "layers (handleNavigate P dir s) = layers s
   \<or> (\<exists>l. layers (handleNavigate P dir s) = layers s @ [l] \<and> layer_type l = Base \<and> zIndex l = 0)"
  unfolding handleNavigate_def Let_def
  by (simp add: navigate_conclude_layers navigate_layer_def split: promise.splits)

lemma asset_creates:
  "layers (handleGenerateAsset P s) = layers s
   \<or> (\<exists>l. layers (handleGenerateAsset P s) = layers s @ [l] \<and> layer_type l = Object
           \<and> zIndex l = int (length (layers s)) + 10)"
  unfolding handleGenerateAsset_def
  by (simp add: asset_conclude_layers asset_layer_fields split: promise.splits)

lemma base_creates:
  "layers (handleGenerateBase P s) = layers s
   \<or> (\<exists>l. layers (handleGenerateBase P s) = l # base_prevLayers s \<and> layer_type l = Base
           \<and> zIndex l = 0)"
  unfolding handleGenerateBase_def
  by (simp add: base_conclude_layers base_layer_def Let_def split: promise.splits)

lemma example_state_reachable: "reachable (example_state P)"
  unfolding example_state_def
  by (rule r_interface[OF r_bootstrap[OF r_init]]) simp_all

lemma example_state_fields:
  "layers (example_state P) = [\<lparr>pos_x = 0, pos_y = 0, width = CANVAS_WIDTH, height = CANVAS_HEIGHT,
       layer_id = ''layer-base-0-0'', name = ''Base Start'', layer_type = Base,
       imageData = toDataURL P \<lparr>cv_width = 64, cv_height = 64,
                  cv_ops = (if context2d P
                            then [FillRect ''#1a2e1a'' 0 0 64 64, FillRect ''#223822'' 0 0 32 32,
                                  FillRect ''#223822'' 32 32 32 32]
                            else [])\<rparr>, visible = True, zIndex = 0\<rparr>]"
  "history (example_state P) = [layers (example_state P)]"
  "historyIndex (example_state P) = 0"
  "prompt (example_state P) = ''tree''"
  "brushMask (example_state P) = None"
  "selection (example_state P) = None"
  by (simp_all add: example_state_def bootstrap_def initial_state_def Let_def)

lemma example_asset_try:
  "snd (asset_try (example_model (Resolved (Some [Some (''image/png'', ''AAAA'')]))) (example_state P))
   = Resolved (''url'', viewX (example_state P) + CANVAS_WIDTH / 2 - 128,
               viewY (example_state P) + CANVAS_HEIGHT / 2 - 128, 256, 256, False)"
  by (simp add: asset_try_def example_state_fields truthy_def asset_isolated_def
      generateMapAsset_def bindT_def awaitT_def example_model_def example_browser_def
      response_parts_def removeMagentaBackground_def Let_def)

lemma example_asset_layers:
  "map zIndex (layers (handleGenerateAsset
      (example_model (Resolved (Some [Some (''image/png'', ''AAAA'')]))) (example_state P))) = [0, 11]
   \<and> map layer_type (layers (handleGenerateAsset
      (example_model (Resolved (Some [Some (''image/png'', ''AAAA'')]))) (example_state P))) = [Base, Object]"
  by (simp add: handleGenerateAsset_def asset_conclude_layers example_asset_try
      example_state_fields trim_empty_def is_space_def byte_in_def continuation_def asset_layer_fields)

text \<open>
  The z-order invariant. In every reachable state, every base layer of the scene has
  \<^verbatim>\<open>zIndex\<close> 0 and every object layer has \<^verbatim>\<open>zIndex\<close> at least 10, so every object layer has a
  strictly greater \<^verbatim>\<open>zIndex\<close> than every base layer, and in the z-sorted order the
  compositors start from no object layer comes before a base layer. The layers are created
  so: the first render, \<^verbatim>\<open>handleNavigate\<close> and \<^verbatim>\<open>handleGenerateBase\<close> add at most one layer, a
  base layer with \<^verbatim>\<open>zIndex\<close> 0; \<^verbatim>\<open>handleGenerateAsset\<close> adds at most one layer, an object layer
  with \<^verbatim>\<open>zIndex = layers.length + 10\<close>.
\<close>

lemma object_layers_above_base_layers:
  assumes "reachable s"
  shows "(\<forall>b \<in> set (layers s). \<forall>ob \<in> set (layers s).
            layer_type b = Base \<and> layer_type ob = Object \<longrightarrow>
            zIndex b = 0 \<and> 10 \<le> zIndex ob \<and> zIndex b < zIndex ob)
       \<and> (\<forall>i j. i < j \<and> j < length (sort_by_zIndex (layers s)) \<longrightarrow>
            \<not> (layer_type (sort_by_zIndex (layers s) ! i) = Object
               \<and> layer_type (sort_by_zIndex (layers s) ! j) = Base))
       \<and> (layers (bootstrap P s) = layers s
           \<or> (\<exists>l. layers (bootstrap P s) = [l] \<and> layer_type l = Base \<and> zIndex l = 0))
       \<and> (layers (handleNavigate P dir s) = layers s
           \<or> (\<exists>l. layers (handleNavigate P dir s) = layers s @ [l] \<and> layer_type l = Base
                   \<and> zIndex l = 0))
       \<and> (layers (handleGenerateBase P s) = layers s
           \<or> (\<exists>l. layers (handleGenerateBase P s) = l # base_prevLayers s \<and> layer_type l = Base
                   \<and> zIndex l = 0))
       \<and> (layers (handleGenerateAsset P s) = layers s
           \<or> (\<exists>l. layers (handleGenerateAsset P s) = layers s @ [l] \<and> layer_type l = Object
                   \<and> zIndex l = int (length (layers s)) + 10))"
proof -
  have ok: "scene_ok (layers s)" using reachable_ok[OF assms] by (simp add: state_ok_def)
  have 1: "\<forall>b \<in> set (layers s). \<forall>ob \<in> set (layers s).
            layer_type b = Base \<and> layer_type ob = Object \<longrightarrow>
            zIndex b = 0 \<and> 10 \<le> zIndex ob \<and> zIndex b < zIndex ob"
  proof (intro ballI impI)
    fix b ob assume m: "b \<in> set (layers s)" "ob \<in> set (layers s)"
      and t: "layer_type b = Base \<and> layer_type ob = Object"
    from ok m have "zIndex_ok b" "zIndex_ok ob" by (simp_all add: scene_ok_def list_all_iff)
    with t show "zIndex b = 0 \<and> 10 \<le> zIndex ob \<and> zIndex b < zIndex ob"
      by (simp add: zIndex_ok_def)
  qed
  have 2: "\<forall>i j. i < j \<and> j < length (sort_by_zIndex (layers s)) \<longrightarrow>
            \<not> (layer_type (sort_by_zIndex (layers s) ! i) = Object
               \<and> layer_type (sort_by_zIndex (layers s) ! j) = Base)"
    using sorted_bases_first[OF ok] by blast
  show ?thesis
    using 1 2 bootstrap_creates[of P s] navigate_creates[of P dir s] base_creates[of P s]
      asset_creates[of P s]
    by (intro conjI)
qed

lemma object_layers_above_base_layers_example:
  "reachable (handleGenerateAsset (example_model (Resolved (Some [Some (''image/png'', ''AAAA'')])))
      (example_state (example_model (Resolved (Some [Some (''image/png'', ''AAAA'')])))))
   \<and> map layer_type (layers (handleGenerateAsset
        (example_model (Resolved (Some [Some (''image/png'', ''AAAA'')])))
        (example_state (example_model (Resolved (Some [Some (''image/png'', ''AAAA'')]))))))
       = [Base, Object]
   \<and> zIndex (layers (handleGenerateAsset
        (example_model (Resolved (Some [Some (''image/png'', ''AAAA'')])))
        (example_state (example_model (Resolved (Some [Some (''image/png'', ''AAAA'')]))))) ! 0)
     < zIndex (layers (handleGenerateAsset
        (example_model (Resolved (Some [Some (''image/png'', ''AAAA'')])))
        (example_state (example_model (Resolved (Some [Some (''image/png'', ''AAAA'')]))))) ! 1)"
proof -
  let ?P = "example_model (Resolved (Some [Some (''image/png'', ''AAAA'')]))"
  let ?s = "handleGenerateAsset ?P (example_state ?P)"
  have r: "reachable ?s" by (rule r_asset[OF example_state_reachable])
  have t: "map layer_type (layers ?s) = [Base, Object]"
    using example_asset_layers[of ?P] by simp
  then obtain a b where ab: "layers ?s = [a, b]" "layer_type a = Base" "layer_type b = Object"
    by (auto simp: map_eq_Cons_conv)
  have t0: "layer_type (layers ?s ! 0) = Base" and t1: "layer_type (layers ?s ! 1) = Object"
    using ab by simp_all
  have m: "layers ?s ! 0 \<in> set (layers ?s)" "layers ?s ! 1 \<in> set (layers ?s)"
    using ab by simp_all
  from object_layers_above_base_layers[OF r, of ?P Dir_right] m t0 t1
  have "zIndex (layers ?s ! 0) < zIndex (layers ?s ! 1)" by blast
  with r t show ?thesis by simp
qed

subsection \<open>The prompt guard\<close>

text \<open>A prompt of white space only, ASCII or not (here a no-break space, U+FEFF, U+2028 and
  U+3000 among them), is one that \<^verbatim>\<open>trim()\<close> empties; a zero-width space (U+200B) is not
  white space. With such a prompt the two handlers do nothing.\<close>

lemma trim_empty_examples:
  "trim_empty []"
  "trim_empty '' ''"
  "trim_empty [CHR 0x09, CHR 0x0A, CHR 0x0D]"
  "trim_empty [CHR 0xC2, CHR 0xA0]"
  "trim_empty [CHR 0xA0]"
  "trim_empty [CHR 0xEF, CHR 0xBB, CHR 0xBF]"
  "trim_empty [CHR 0xE2, CHR 0x80, CHR 0xA8]"
  "trim_empty [CHR 0xE3, CHR 0x80, CHR 0x80, CHR 0x20]"
  "\<not> trim_empty [CHR 0xE2, CHR 0x80, CHR 0x8B]"
  "\<not> trim_empty ''tree''"
  "\<not> trim_empty '' a ''"
  by (simp_all add: trim_empty_def is_space_def byte_in_def continuation_def two_bytes_def
      three_bytes_def)

lemma blank_prompt_ignored:
  "trim_empty (prompt s) \<Longrightarrow> handleGenerateAsset P s = s"
  "trim_empty (basePrompt s) \<Longrightarrow> handleGenerateBase P s = s"
  by (simp_all add: handleGenerateAsset_def handleGenerateBase_def)

subsection \<open>Failure of the model call\<close>































section \<open>Properties of stitching and compositing\<close>

lemma canvasSize_cases:
  "canvasSize n = 1024 \<or> canvasSize n = 1280 \<or> canvasSize n = 1536"
  by (simp add: canvasSize_def contentW_def contentH_def TARGET_SIZE_def STRIP_SIZE_def)

lemma generateSeamlessTexture_success:
  assumes "truthy (API_KEY P)" and "context2d P"
    and "all_loaded (stitch_strips n) (loadEvents P (map fst (stitch_strips n)))"
    and "\<forall>parts. generateContent P parts = Resolved r"
    and "first_inlineData (response_parts r) = Some d"
    and "loadImage P (data_url d) = Some sz"
  shows "snd (generateSeamlessTexture P n st bp) =
     Resolved (toDataURL P (cropAndResize_canvas (data_url d)
        (stitch_targetX n * (outputSize / canvasSize n)) (stitch_targetY n * (outputSize / canvasSize n))
        (TARGET_SIZE * (outputSize / canvasSize n)) (TARGET_SIZE * (outputSize / canvasSize n))
        TARGET_SIZE TARGET_SIZE))"
  using assms
  by (simp add: generateSeamlessTexture_def Let_def crop_rect_def crop_scale_def cropAndResize_def)

lemma example_neighbors_canvas: "canvasSize example_neighbors = 1536"
  by (simp add: example_neighbors_def canvasSize_def contentW_def contentH_def truthy_def
      TARGET_SIZE_def STRIP_SIZE_def)

lemma example_neighbors_strips:
  "stitch_strips example_neighbors = [(''left'', 0, 0), (''right'', 1280, 0)]"
  by (simp add: example_neighbors_def stitch_strips_def truthy_def stitch_targetX_def
      stitch_targetY_def TARGET_SIZE_def STRIP_SIZE_def)

lemma upt_2: "[0..<2] = [0, Suc 0]"
  by (simp add: numeral_2_eq_2)

text \<open>
  Claim C5. When the model answers with an image, \<^verbatim>\<open>generateSeamlessTexture\<close> computes
  \<open>scale = outputSize / canvasSize\<close>, crops the generated image at
  \<open>(targetX * scale, targetY * scale)\<close> with size \<open>(1024 * scale, 1024 * scale)\<close> and draws the
  crop onto a canvas of 1024 by 1024, whatever the canvas size; for canvas size 1536 the scale
  is 2/3.
\<close>

theorem seamless_inverse_crop:
  assumes "truthy (API_KEY P)" and "context2d P"
    and "all_loaded (stitch_strips n) (loadEvents P (map fst (stitch_strips n)))"
    and "\<forall>parts. generateContent P parts = Resolved r"
    and "first_inlineData (response_parts r) = Some d"
    and "loadImage P (data_url d) = Some sz"
  shows "crop_scale n = outputSize / canvasSize n
       \<and> crop_rect n = (stitch_targetX n * crop_scale n, stitch_targetY n * crop_scale n,
                        1024 * crop_scale n, 1024 * crop_scale n)
       \<and> snd (generateSeamlessTexture P n st bp) =
           Resolved (toDataURL P (cropAndResize_canvas (data_url d)
              (stitch_targetX n * crop_scale n) (stitch_targetY n * crop_scale n)
              (1024 * crop_scale n) (1024 * crop_scale n) 1024 1024))
       \<and> cv_width (cropAndResize_canvas (data_url d)
              (stitch_targetX n * crop_scale n) (stitch_targetY n * crop_scale n)
              (1024 * crop_scale n) (1024 * crop_scale n) 1024 1024) = 1024
       \<and> cv_height (cropAndResize_canvas (data_url d)
              (stitch_targetX n * crop_scale n) (stitch_targetY n * crop_scale n)
              (1024 * crop_scale n) (1024 * crop_scale n) 1024 1024) = 1024
       \<and> cv_ops (cropAndResize_canvas (data_url d)
              (stitch_targetX n * crop_scale n) (stitch_targetY n * crop_scale n)
              (1024 * crop_scale n) (1024 * crop_scale n) 1024 1024) =
           [DrawImageCrop (data_url d) (stitch_targetX n * crop_scale n) (stitch_targetY n * crop_scale n)
              (1024 * crop_scale n) (1024 * crop_scale n) 0 0 1024 1024]
       \<and> (canvasSize n = 1536 \<longrightarrow> crop_scale n = 2 / 3)"
  using generateSeamlessTexture_success[OF assms, of st bp]
  by (simp add: crop_scale_def crop_rect_def TARGET_SIZE_def outputSize_def cropAndResize_canvas_def)

theorem seamless_inverse_crop_witness:
  "canvasSize example_neighbors = 1536
   \<and> crop_rect example_neighbors = (512 / 3, 0, 2048 / 3, 2048 / 3)
   \<and> snd (generateSeamlessTexture (example_model (Resolved (Some [Some (''image/png'', ''AAAA'')])))
         example_neighbors (mapSettings initial_state) ''grassland'') = Resolved ''url''
   \<and> cv_width (cropAndResize_canvas (data_url (''image/png'', ''AAAA'')) (512 / 3) 0 (2048 / 3) (2048 / 3)
         1024 1024) = 1024"
proof -
  let ?P = "example_model (Resolved (Some [Some (''image/png'', ''AAAA'')]))"
  have a: "truthy (API_KEY ?P)" "context2d ?P"
    by (simp_all add: example_model_def example_browser_def truthy_def)
  have b: "all_loaded (stitch_strips example_neighbors)
             (loadEvents ?P (map fst (stitch_strips example_neighbors)))"
    by (simp add: example_neighbors_strips all_loaded_def example_model_def example_browser_def upt_2)
  have c: "\<forall>parts. generateContent ?P parts = Resolved (Some [Some (''image/png'', ''AAAA'')])"
    by (simp add: example_model_def)
  have d: "first_inlineData (response_parts (Some [Some (''image/png'', ''AAAA'')]))
            = Some (''image/png'', ''AAAA'')"
    by (simp add: response_parts_def)
  have e: "loadImage ?P (data_url (''image/png'', ''AAAA'')) = Some (2, 2)"
    by (simp add: example_model_def example_browser_def)
  have s: "crop_scale example_neighbors = 2 / 3"
    by (simp add: crop_scale_def example_neighbors_canvas outputSize_def)
  have t: "stitch_targetX example_neighbors = 256" "stitch_targetY example_neighbors = 0"
    by (simp_all add: example_neighbors_def stitch_targetX_def stitch_targetY_def truthy_def STRIP_SIZE_def)
  have u: "toDataURL ?P cv = ''url''" for cv
    by (simp add: example_model_def example_browser_def)
  from seamless_inverse_crop[OF a b c d e, of "mapSettings initial_state" "''grassland''"]
  show ?thesis
    by (simp add: example_neighbors_canvas s t u outputSize_def)
qed

text \<open>
  Claim C4. The last drawing call on the stitching canvas is always the magenta fill: the
  strips are not drawn a second time. With a left neighbour alone the canvas holds the
  background fill, the strip and the magenta fill, in this order; with a strip image 300
  wide, the point (260, 10) lies on the strip and the call that painted it last is the
  magenta fill.
\<close>

theorem stitch_canvas_no_second_blit:
  "last (cv_ops (stitch_canvas n es)) =
     FillRect ''#FF00FF'' (stitch_targetX n) (stitch_targetY n) TARGET_SIZE TARGET_SIZE
   \<and> cv_ops (stitch_canvas left_only [(0, True)]) =
     [FillRect ''#222222'' 0 0 1280 1280, DrawImage ''strip'' 0 0, FillRect ''#FF00FF'' 256 0 1024 1024]
   \<and> op_covers (\<lambda>_. Some (300, 1024)) (DrawImage ''strip'' 0 0) (260, 10)
   \<and> last_painter (\<lambda>_. Some (300, 1024)) (cv_ops (stitch_canvas left_only [(0, True)])) (260, 10)
       = Some (FillRect ''#FF00FF'' 256 0 1024 1024)"
  by (simp add: stitch_canvas_def left_only_def canvasSize_def contentW_def contentH_def
      stitch_strips_def stitch_targetX_def stitch_targetY_def truthy_def TARGET_SIZE_def
      STRIP_SIZE_def last_painter_def in_rect_def)

text \<open>When the load events fire in the order the loads were started, and none fails,
  \<^verbatim>\<open>getCompositeRect\<close> draws the visible layers in ascending z-order, layers of equal z in
  their order in the scene.\<close>

lemma drain_loads_in_order:
  "j < length imgs \<Longrightarrow>
   drain_loads imgs draw (map (\<lambda>k. (k, True)) [j..<length imgs]) j ops
     = Some (ops @ map draw (drop j imgs))"
proof (induction "length imgs - j" arbitrary: j ops)
  case 0
  then show ?case by simp
next
  case (Suc m)
  have up: "[j..<length imgs] = j # [Suc j..<length imgs]"
    using Suc.prems by (simp add: upt_conv_Cons)
  have dr: "drop j imgs = imgs ! j # drop (Suc j) imgs"
    using Suc.prems by (simp add: Cons_nth_drop_Suc)
  show ?case
  proof (cases "Suc j = length imgs")
    case True
    then show ?thesis using Suc.prems by (simp add: up dr)
  next
    case False
    then have lt: "Suc j < length imgs" using Suc.prems by simp
    have m: "m = length imgs - Suc j" using Suc.hyps(2) by simp
    show ?thesis
      using Suc.hyps(1)[OF m lt, of "ops @ [draw (imgs ! j)]"] False Suc.prems
      by (simp add: up dr)
  qed
qed

lemma getCompositeRect_in_order:
  assumes "loadEvents P (map imageData (filter visible (sort_by_zIndex ls)))
     = map (\<lambda>k. (k, True)) [0..<length (filter visible (sort_by_zIndex ls))]"
  shows "getCompositeRect_canvas P rect ls =
     Resolved \<lparr>cv_width = width rect, cv_height = height rect,
       cv_ops = FillRect ''#000000'' 0 0 (width rect) (height rect)
                # map (draw_layer (pos_x rect) (pos_y rect)) (filter visible (sort_by_zIndex ls))\<rparr>"
proof (cases "filter visible (sort_by_zIndex ls) = []")
  case True
  then show ?thesis by (simp add: getCompositeRect_canvas_def Let_def)
next
  case False
  then have "0 < length (filter visible (sort_by_zIndex ls))" by simp
  from drain_loads_in_order[OF this] show ?thesis
    using False assms by (simp add: getCompositeRect_canvas_def Let_def)
qed

text \<open>
  Claim C1, when the image of the second layer loads before that of the first. Both
  compositors draw the tree (z 11) first and the ground tile (z 0) over it, so the call that
  painted last at the point (150, 150) of their overlap is the ground tile's; with both
  layers at z 0 the layer later in the sequence is drawn first all the same.
\<close>

theorem composite_paints_in_load_order:
  "getCompositeRect_canvas second_loads_first example_viewport [example_ground, example_tree] =
     Resolved \<lparr>cv_width = 1024, cv_height = 1024,
       cv_ops = [FillRect ''#000000'' 0 0 1024 1024,
                 DrawImageScaled ''tree.png'' 100 100 256 256,
                 DrawImageScaled ''ground.png'' 0 0 1024 1024]\<rparr>
   \<and> last_painter (loadImage second_loads_first)
        [FillRect ''#000000'' 0 0 1024 1024,
         DrawImageScaled ''tree.png'' 100 100 256 256,
         DrawImageScaled ''ground.png'' 0 0 1024 1024] (150, 150)
       = Some (DrawImageScaled ''ground.png'' 0 0 1024 1024)
   \<and> zIndex example_ground < zIndex example_tree
   \<and> compositeLayers_canvas second_loads_first 1024 1024 [example_ground, example_tree] =
     Resolved \<lparr>cv_width = 1024, cv_height = 1024,
       cv_ops = [DrawImageScaled ''tree.png'' 100 100 256 256,
                 DrawImageScaled ''ground.png'' 0 0 1024 1024]\<rparr>
   \<and> getCompositeRect_canvas second_loads_first example_viewport [example_ground, example_tree\<lparr>zIndex := 0\<rparr>] =
     Resolved \<lparr>cv_width = 1024, cv_height = 1024,
       cv_ops = [FillRect ''#000000'' 0 0 1024 1024,
                 DrawImageScaled ''tree.png'' 100 100 256 256,
                 DrawImageScaled ''ground.png'' 0 0 1024 1024]\<rparr>"
  by (simp add: getCompositeRect_canvas_def compositeLayers_canvas_def sort_by_zIndex_def
      second_loads_first_def example_browser_def example_viewport_def example_ground_def example_tree_def draw_layer_def
      last_painter_def in_rect_def Let_def)

lemma selected_state_reachable: "reachable selected_state"
  unfolding selected_state_def
  by (rule r_interface[OF example_state_reachable]) simp_all

lemma digit_char_0: "digit_char 0 = CHR ''0''"
  by code_simp

lemma selected_state_asset:
  "layers (handleGenerateAsset loads_last_first selected_state) =
     [\<lparr>pos_x = 0, pos_y = 0, width = 1024, height = 1024, layer_id = ''layer-base-0-0'',
       name = ''Base Start'', layer_type = Base, imageData = ''checker.png'', visible = True,
       zIndex = 0\<rparr>,
      \<lparr>pos_x = 100, pos_y = 100, width = 256, height = 256, layer_id = ''layer-0'',
       name = ''tree'', layer_type = Object, imageData = ''asset.png'', visible = True,
       zIndex = 11\<rparr>]"
  by (simp add: handleGenerateAsset_def asset_conclude_def addToHistory_def asset_layer_def
      trim_empty_def is_space_def byte_in_def continuation_def asset_try_def truthy_def asset_selection_def
      selected_state_def example_selection_def loads_last_first_def
      getCompositeRect_def getCompositeRect_canvas_def sort_by_zIndex_def
      cropAndResize_def cropAndResize_canvas_def map_promise_def createDifferenceLayer_def
      createDifferenceLayer_canvas_def
      generateMapAsset_def bindT_def awaitT_def example_model_def example_browser_def
      response_parts_def Let_def example_state_def bootstrap_def initial_state_def
      set_debug_logs_def CANVAS_WIDTH_def CANVAS_HEIGHT_def show_nat.simps digit_char_0)

text \<open>
  Claim C9, in a reachable scene. After the first render, a rectangle is selected and an
  asset generated: the scene is the checkerboard base layer with \<^verbatim>\<open>zIndex\<close> 0 and, over part
  of it, the new object layer with \<^verbatim>\<open>zIndex\<close> 11, both visible. When the image of the object
  layer loads before that of the base layer, \<^verbatim>\<open>getCompositeRect\<close> and \<^verbatim>\<open>compositeLayers\<close> draw
  the object layer first and the base layer over it: the call that painted last at the point
  (150, 150), inside the object layer, is the base layer's. When the images load in the order
  the loads were started, the base layer is drawn first and the object layer over it.
\<close>

theorem object_layer_painted_below_base_layer:
  "reachable (handleGenerateAsset loads_last_first selected_state)
   \<and> layers (handleGenerateAsset loads_last_first selected_state) =
     [\<lparr>pos_x = 0, pos_y = 0, width = 1024, height = 1024, layer_id = ''layer-base-0-0'',
       name = ''Base Start'', layer_type = Base, imageData = ''checker.png'', visible = True,
       zIndex = 0\<rparr>,
      \<lparr>pos_x = 100, pos_y = 100, width = 256, height = 256, layer_id = ''layer-0'',
       name = ''tree'', layer_type = Object, imageData = ''asset.png'', visible = True,
       zIndex = 11\<rparr>]
   \<and> getCompositeRect_canvas loads_last_first example_viewport
        (layers (handleGenerateAsset loads_last_first selected_state)) =
     Resolved \<lparr>cv_width = 1024, cv_height = 1024,
       cv_ops = [FillRect ''#000000'' 0 0 1024 1024,
                 DrawImageScaled ''asset.png'' 100 100 256 256,
                 DrawImageScaled ''checker.png'' 0 0 1024 1024]\<rparr>
   \<and> last_painter (loadImage loads_last_first)
        [FillRect ''#000000'' 0 0 1024 1024,
         DrawImageScaled ''asset.png'' 100 100 256 256,
         DrawImageScaled ''checker.png'' 0 0 1024 1024] (150, 150)
       = Some (DrawImageScaled ''checker.png'' 0 0 1024 1024)
   \<and> compositeLayers_canvas loads_last_first 1024 1024
        (layers (handleGenerateAsset loads_last_first selected_state)) =
     Resolved \<lparr>cv_width = 1024, cv_height = 1024,
       cv_ops = [DrawImageScaled ''asset.png'' 100 100 256 256,
                 DrawImageScaled ''checker.png'' 0 0 1024 1024]\<rparr>
   \<and> getCompositeRect_canvas (loads_last_first\<lparr>loadEvents := loadEvents (example_browser [])\<rparr>)
        example_viewport (layers (handleGenerateAsset loads_last_first selected_state)) =
     Resolved \<lparr>cv_width = 1024, cv_height = 1024,
       cv_ops = [FillRect ''#000000'' 0 0 1024 1024,
                 DrawImageScaled ''checker.png'' 0 0 1024 1024,
                 DrawImageScaled ''asset.png'' 100 100 256 256]\<rparr>"
proof -
  have r: "reachable (handleGenerateAsset loads_last_first selected_state)"
    by (rule r_asset[OF selected_state_reachable])
  have e: "loadEvents loads_last_first = (\<lambda>srcs. rev (map (\<lambda>k. (k, True)) [0..<length srcs]))"
    "loadImage loads_last_first = (\<lambda>_. Some (2, 2))"
    "loadEvents (example_browser []) = (\<lambda>srcs. map (\<lambda>k. (k, True)) [0..<length srcs])"
    by (simp_all add: loads_last_first_def example_model_def example_browser_def)
  show ?thesis
    using r
    by (simp add: selected_state_asset e getCompositeRect_canvas_def compositeLayers_canvas_def
        sort_by_zIndex_def example_viewport_def draw_layer_def last_painter_def in_rect_def Let_def)
qed

section \<open>The history in reachable states\<close>

lemma history_started_cong:
  "history s' = history s \<Longrightarrow> historyIndex s' = historyIndex s \<Longrightarrow>
   history_started s' = history_started s"
  by (simp add: history_started_def cursor_on_entry_def)

lemma addToHistory_started: "history_started (addToHistory c new t)"
  by (simp add: history_started_def cursor_on_entry_def addToHistory_def Let_def)

lemma navigate_conclude_started:
  "history_started t \<Longrightarrow> history_started (navigate_conclude c gx gy outcome t)"
proof (cases "snd outcome")
  case (Resolved v)
  have "history_started ((addToHistory c new u)\<lparr>isGenerating := False\<rparr>)" for new u
    using addToHistory_started[of c new u] by (simp add: history_started_def cursor_on_entry_def)
  then show ?thesis using Resolved by (simp add: navigate_conclude_def Let_def)
next
  case (Rejected e)
  assume "history_started t"
  then show ?thesis using Rejected
    by (simp add: navigate_conclude_def Let_def history_started_def cursor_on_entry_def
        set_debug_logs_scene)
next
  case Pending
  assume "history_started t"
  then show ?thesis using Pending
    by (simp add: navigate_conclude_def Let_def history_started_def cursor_on_entry_def
        set_debug_logs_scene)
qed

lemma asset_conclude_started:
  "history_started t \<Longrightarrow> history_started (asset_conclude P c outcome t)"
proof (cases "snd outcome")
  case (Resolved v)
  have "history_started ((addToHistory c new u)
          \<lparr>selection := None, prompt := [], activeTool := Pointer, isGenerating := False\<rparr>)" for new u
    using addToHistory_started[of c new u] by (simp add: history_started_def cursor_on_entry_def)
  then show ?thesis using Resolved by (simp add: asset_conclude_def Let_def)
next
  case (Rejected e)
  assume "history_started t"
  then show ?thesis using Rejected
    by (simp add: asset_conclude_def Let_def history_started_def cursor_on_entry_def
        set_debug_logs_scene)
next
  case Pending
  assume "history_started t"
  then show ?thesis using Pending
    by (simp add: asset_conclude_def Let_def history_started_def cursor_on_entry_def
        set_debug_logs_scene)
qed

lemma base_conclude_started:
  "history_started t \<Longrightarrow> history_started (base_conclude P c outcome t)"
proof (cases "snd outcome")
  case (Resolved v)
  have "history_started ((addToHistory c new u)\<lparr>basePrompt := [], isGenerating := False\<rparr>)" for new u
    using addToHistory_started[of c new u] by (simp add: history_started_def cursor_on_entry_def)
  then show ?thesis using Resolved by (simp add: base_conclude_def Let_def)
next
  case (Rejected e)
  assume "history_started t"
  then show ?thesis using Rejected
    by (simp add: base_conclude_def Let_def history_started_def cursor_on_entry_def
        set_debug_logs_scene)
next
  case Pending
  assume "history_started t"
  then show ?thesis using Pending
    by (simp add: base_conclude_def Let_def history_started_def cursor_on_entry_def
        set_debug_logs_scene)
qed

lemma handlers_started:
  assumes "history_started s"
  shows "history_started (bootstrap P s)"
    and "history_started (handleNavigate P dir s)"
    and "history_started (handleGenerateAsset P s)"
    and "history_started (handleGenerateBase P s)"
    and "history_started (handleDeleteLayer i s)"
    and "history_started (handleToggleVisibility i s)"
    and "history_started (updateLayerPosition i px py s)"
    and "history_started (handleMoveEnd s)"
    and "history_started (updateLayerData_imageData i newData s)"
proof -
  show "history_started (bootstrap P s)"
    using assms by (simp add: bootstrap_def Let_def history_started_def cursor_on_entry_def)
  have v: "history_started (s\<lparr>viewState := w\<rparr>)" "history_started (s\<lparr>viewState := w, isGenerating := True\<rparr>)" for w
    using assms by (simp_all add: history_started_def cursor_on_entry_def)
  show "history_started (handleNavigate P dir s)"
    unfolding handleNavigate_def Let_def by (simp add: v navigate_conclude_started)
  have a: "history_started (s\<lparr>isGenerating := True, error := None\<rparr>)"
    using assms by (simp add: history_started_def cursor_on_entry_def)
  show "history_started (handleGenerateAsset P s)"
    unfolding handleGenerateAsset_def by (simp add: assms asset_conclude_started[OF a])
  have b: "history_started (s\<lparr>isBaseModalOpen := False, isGenerating := True, error := None,
                lastBasePrompt := basePrompt s\<rparr>)"
    using assms by (simp add: history_started_def cursor_on_entry_def)
  show "history_started (handleGenerateBase P s)"
    unfolding handleGenerateBase_def by (simp add: assms base_conclude_started[OF b])
  show "history_started (handleDeleteLayer i s)"
    using addToHistory_started[of s "filter (\<lambda>l. layer_id l \<noteq> i) (layers s)" s]
    by (simp add: handleDeleteLayer_def history_started_def cursor_on_entry_def)
  show "history_started (handleToggleVisibility i s)"
    unfolding handleToggleVisibility_def by (rule addToHistory_started)
  show "history_started (updateLayerPosition i px py s)"
    using assms by (simp add: updateLayerPosition_def history_started_def cursor_on_entry_def)
  show "history_started (handleMoveEnd s)"
    unfolding handleMoveEnd_def by (rule addToHistory_started)
  show "history_started (updateLayerData_imageData i newData s)"
    unfolding updateLayerData_imageData_def by (rule addToHistory_started)
qed

lemma undo_redo_started:
  assumes "history_started s"
  shows "handleUndo s = Some s' \<Longrightarrow> history_started s'"
    and "handleRedo s = Some s' \<Longrightarrow> history_started s'"
  using assms
  by (auto simp: handleUndo_def handleRedo_def history_started_def cursor_on_entry_def Let_def
      nth_opt_def split: if_splits option.splits)

lemma reachable_started: "reachable s \<Longrightarrow> history_started s"
proof (induction rule: reachable.induct)
  case r_init
  show ?case by (simp add: history_started_def initial_state_def)
next
  case (r_interface s s')
  then show ?case by (simp add: history_started_def cursor_on_entry_def)
next
  case (r_undo s s')
  then show ?case by (blast intro: undo_redo_started)
next
  case (r_redo s s')
  then show ?case by (blast intro: undo_redo_started)
qed (rule handlers_started, assumption)+

text \<open>
  Claim C2, as amended. From every history whose cursor is on an entry, which is every
  reachable state of the application once its history is not empty,
  \<^verbatim>\<open>commit(sceneA); commit(sceneB); undo(); undo(); redo()\<close> leaves \<open>sceneA\<close> as the current
  scene. Committing, undoing and redoing keep the cursor in [-1, length - 1]; an undo at
  cursor 0 or below and a redo at the newest entry change nothing.
\<close>

theorem history_round_trip:
  "(cursor_on_entry s \<longrightarrow>
      (\<exists>s'. round_trip sceneA sceneB s = Some s' \<and> layers s' = sceneA
            \<and> historyIndex s' = historyIndex s + 1 \<and> cursor_in_bounds s'))
   \<and> (reachable u \<and> history u \<noteq> [] \<longrightarrow> cursor_on_entry u)
   \<and> (cursor_in_bounds t \<longrightarrow>
        cursor_in_bounds (commit sceneA t)
        \<and> (\<exists>t'. handleUndo t = Some t' \<and> cursor_in_bounds t')
        \<and> (\<exists>t'. handleRedo t = Some t' \<and> cursor_in_bounds t'))
   \<and> (historyIndex t \<le> 0 \<longrightarrow> handleUndo t = Some t)
   \<and> (int (length (history t)) - 1 \<le> historyIndex t \<longrightarrow> handleRedo t = Some t)"
proof (intro conjI impI)
  assume "cursor_on_entry s"
  then have a: "0 \<le> historyIndex s \<and> historyIndex s < int (length (history s))"
    by (simp add: cursor_on_entry_def)
  from round_trip_inside[OF conjunct1[OF a] conjunct2[OF a], of sceneA sceneB]
  obtain s' where s': "round_trip sceneA sceneB s = Some s'" "layers s' = sceneA"
    "historyIndex s' = historyIndex s + 1"
    "history s' = take (nat (historyIndex s) + 1) (history s) @ [sceneA, sceneB]"
    by blast
  have "cursor_in_bounds s'"
    using a s'(3,4) by (auto simp: cursor_in_bounds_def min_def)
  with s' show "\<exists>s'. round_trip sceneA sceneB s = Some s' \<and> layers s' = sceneA
            \<and> historyIndex s' = historyIndex s + 1 \<and> cursor_in_bounds s'"
    by blast
next
  assume "reachable u \<and> history u \<noteq> []"
  then show "cursor_on_entry u"
    using reachable_started[of u] by (simp add: history_started_def)
next
  assume c: "cursor_in_bounds t"
  show "cursor_in_bounds (commit sceneA t)" by (rule commit_cursor)
  show "\<exists>t'. handleUndo t = Some t' \<and> cursor_in_bounds t'" using c by (rule undo_cursor)
  show "\<exists>t'. handleRedo t = Some t' \<and> cursor_in_bounds t'" using c by (rule redo_cursor)
next
  assume "historyIndex t \<le> 0"
  then show "handleUndo t = Some t" by (rule undo_noop)
next
  assume "int (length (history t)) - 1 \<le> historyIndex t"
  then show "handleRedo t = Some t" by (rule redo_noop)
qed

theorem history_round_trip_witness:
  "reachable (bootstrap (example_browser []) initial_state)
   \<and> history (bootstrap (example_browser []) initial_state) \<noteq> []
   \<and> cursor_on_entry (bootstrap (example_browser []) initial_state)
   \<and> cursor_in_bounds (bootstrap (example_browser []) initial_state)
   \<and> map_option layers
        (round_trip [] [navigate_layer 1 0 ''tile''] (bootstrap (example_browser []) initial_state))
       = Some []
   \<and> handleUndo (bootstrap (example_browser []) initial_state)
       = Some (bootstrap (example_browser []) initial_state)
   \<and> handleRedo (bootstrap (example_browser []) initial_state)
       = Some (bootstrap (example_browser []) initial_state)"
proof -
  let ?s = "bootstrap (example_browser []) initial_state"
  have r: "reachable ?s" by (rule r_bootstrap[OF r_init])
  have n: "history ?s \<noteq> []" by (simp add: bootstrap_initial)
  have h: "cursor_on_entry ?s" by (simp add: cursor_on_entry_def bootstrap_initial)
  have c: "cursor_in_bounds ?s" by (simp add: cursor_in_bounds_def bootstrap_initial)
  have u: "historyIndex ?s \<le> 0" and d: "int (length (history ?s)) - 1 \<le> historyIndex ?s"
    by (simp_all add: bootstrap_initial)
  from history_round_trip[of ?s "[]" "[navigate_layer 1 0 ''tile'']" ?s ?s] r n h c u d
  show ?thesis by auto
qed

text \<open>
  Claim C2 as stated fails on the empty history (cursor -1): the first commit lands on
  index 0, which the second undo cannot leave, and the redo then gives \<open>sceneB\<close>.
\<close>

theorem history_round_trip_counterexample:
  "cursor_in_bounds initial_state
   \<and> map_option layers (round_trip [] [navigate_layer 1 0 ''tile''] initial_state)
       = Some [navigate_layer 1 0 ''tile'']
   \<and> [navigate_layer 1 0 ''tile''] \<noteq> []"
proof -
  have i: "historyIndex initial_state = - 1" by (simp add: initial_state_def)
  have "cursor_in_bounds initial_state" by (simp add: cursor_in_bounds_def initial_state_def)
  moreover from round_trip_fresh[OF i, of "[]" "[navigate_layer 1 0 ''tile'']"]
  have "map_option layers (round_trip [] [navigate_layer 1 0 ''tile''] initial_state)
       = Some [navigate_layer 1 0 ''tile'']" by auto
  ultimately show ?thesis by simp
qed

end
